theory Spec2Isabelle
  imports Main
begin

section \<open>Go string primitives used by the organizer and the guest\<close>

text \<open>
  Strings are lists of characters. A \<^typ>\<open>char\<close> stands for one code point below 256, which
  covers every constant the program compares against (all of them ASCII). The functions
  below are the ones of Go's \<^verbatim>\<open>strings\<close> package that the two programs call, each restricted
  to the separators the programs pass.
\<close>

definition isSpace :: "char \<Rightarrow> bool" where
  \<comment> \<open>\<^verbatim>\<open>unicode.IsSpace\<close> on the Latin-1 range: tab, LF, VT, FF, CR, space, NEL, NBSP.\<close>
  "isSpace c \<longleftrightarrow>
     c = CHR 0x09 \<or> c = CHR 0x0A \<or> c = CHR 0x0B \<or> c = CHR 0x0C \<or> c = CHR 0x0D \<or>
     c = CHR 0x20 \<or> c = CHR 0x85 \<or> c = CHR 0xA0"

definition HasPrefix :: "string \<Rightarrow> string \<Rightarrow> bool" where
  "HasPrefix s p \<longleftrightarrow> take (length p) s = p"

definition HasSuffix :: "string \<Rightarrow> string \<Rightarrow> bool" where
  "HasSuffix s p \<longleftrightarrow> length p \<le> length s \<and> drop (length s - length p) s = p"

definition TrimPrefix :: "string \<Rightarrow> string \<Rightarrow> string" where
  "TrimPrefix s p = (if HasPrefix s p then drop (length p) s else s)"

definition TrimSuffix :: "string \<Rightarrow> string \<Rightarrow> string" where
  "TrimSuffix s p = (if HasSuffix s p then take (length s - length p) s else s)"

fun Contains :: "string \<Rightarrow> string \<Rightarrow> bool" where
  "Contains [] sub = (sub = [])"
| "Contains (c # s) sub = (HasPrefix (c # s) sub \<or> Contains s sub)"

definition TrimSpace :: "string \<Rightarrow> string" where
  "TrimSpace s = rev (dropWhile isSpace (rev (dropWhile isSpace s)))"

fun Split :: "string \<Rightarrow> char \<Rightarrow> string list" where
  \<comment> \<open>\<^verbatim>\<open>strings.Split(s, sep)\<close> for a one-character separator; the empty string gives one empty piece.\<close>
  "Split [] sep = [[]]"
| "Split (c # s) sep =
     (if c = sep then [] # Split s sep
      else (case Split s sep of [] \<Rightarrow> [[c]] | l # ls \<Rightarrow> (c # l) # ls))"

definition SplitN2 :: "string \<Rightarrow> char \<Rightarrow> string list" where
  \<comment> \<open>\<^verbatim>\<open>strings.SplitN(s, sep, 2)\<close> for a one-character separator: cut at the first occurrence.\<close>
  "SplitN2 s sep =
     (if sep \<in> set s
      then [takeWhile (\<lambda>c. c \<noteq> sep) s, tl (dropWhile (\<lambda>c. c \<noteq> sep) s)]
      else [s])"

fun fieldsFrom :: "string \<Rightarrow> string \<Rightarrow> string list" where
  \<comment> \<open>the scan of \<^verbatim>\<open>strings.Fields\<close>: the first argument is the field being read.\<close>
  "fieldsFrom cur [] = (if cur = [] then [] else [cur])"
| "fieldsFrom cur (c # s) =
     (if isSpace c then (if cur = [] then fieldsFrom [] s else cur # fieldsFrom [] s)
      else fieldsFrom (cur @ [c]) s)"

definition Fields :: "string \<Rightarrow> string list" where
  "Fields s = fieldsFrom [] s"

fun Join :: "string list \<Rightarrow> string \<Rightarrow> string" where
  "Join [] sep = []"
| "Join [x] sep = x"
| "Join (x # y # ys) sep = x @ sep @ Join (y # ys) sep"

fun unescapeNewlines :: "string \<Rightarrow> string" where
  \<comment> \<open>\<^verbatim>\<open>strings.ReplaceAll(description, "\\n", "\n")\<close>: backslash followed by n becomes a line feed.\<close>
  "unescapeNewlines (a # b # s) =
     (if a = CHR 0x5C \<and> b = CHR ''n'' then CHR 0x0A # unescapeNewlines s
      else a # unescapeNewlines (b # s))"
| "unescapeNewlines s = s"

subsection \<open>Standard base64 (\<^verbatim>\<open>base64.StdEncoding.EncodeToString\<close>)\<close>

definition encodeStd :: string where
  "encodeStd = ''ABCDEFGHIJKLMNOPQRSTUVWXYZabcdefghijklmnopqrstuvwxyz0123456789+/''"

fun b64 :: "nat list \<Rightarrow> string" where
  "b64 [] = []"
| "b64 [a] = [encodeStd ! (a div 4), encodeStd ! ((a mod 4) * 16), CHR ''='', CHR ''='']"
| "b64 [a, b] =
     [encodeStd ! (a div 4), encodeStd ! ((a mod 4) * 16 + b div 16),
      encodeStd ! ((b mod 16) * 4), CHR ''='']"
| "b64 (a # b # c # r) =
     [encodeStd ! (a div 4), encodeStd ! ((a mod 4) * 16 + b div 16),
      encodeStd ! ((b mod 16) * 4 + c div 64), encodeStd ! (c mod 64)] @ b64 r"

definition EncodeToString :: "string \<Rightarrow> string" where
  "EncodeToString data = b64 (map of_char data)"

section \<open>Calendar objects\<close>

text \<open>
  A calendar object as the CalDAV client hands it over: its path and its parsed data
  (\<open>None\<close> is a nil \<^verbatim>\<open>Data\<close>), the data being the list of components the reading program
  goes through (\<^verbatim>\<open>Children\<close> for the guest, \<^verbatim>\<open>Events()\<close> for the organizer). A property is
  \<open>None\<close> when the component does not carry it. iCalendar escaping is not modelled: a
  property holds the string the reading program sees.
\<close>

record vevent =
  SUMMARY :: "string option"
  DESCRIPTION :: "string option"
  UID :: "string option"

record CalendarObject =
  Path :: string
  Data :: "vevent list option"

type_synonym store = "string \<rightharpoonup> CalendarObject"

datatype panic = NilDereference | IndexOutOfRange

section \<open>Organizer\<close>

definition CreateCommand :: "string \<Rightarrow> string \<Rightarrow> vevent" where
  \<comment> \<open>the event \<^verbatim>\<open>CreateCommand\<close> puts, for a fresh \<open>uid\<close>; the time stamps are left out.\<close>
  "CreateCommand uid command =
     \<lparr>SUMMARY = Some (''Meeting from nobody: '' @ command),
      DESCRIPTION = Some [],
      UID = Some uid\<rparr>"

fun hostsLoop :: "string list \<Rightarrow> string list \<Rightarrow> string list" where
  \<comment> \<open>the loop of \<^verbatim>\<open>getExecutedHosts\<close>; the first argument is \<^verbatim>\<open>hosts\<close>.\<close>
  "hostsLoop hosts [] = hosts"
| "hostsLoop hosts (line # lines) =
     (if HasPrefix line ''[OUTPUT-'' \<and> HasSuffix line '']''
      then hostsLoop (hosts @ [TrimSuffix (TrimPrefix line ''[OUTPUT-'') '']'']) lines
      else hostsLoop hosts lines)"

definition getExecutedHosts :: "string \<Rightarrow> string list" where
  "getExecutedHosts description = hostsLoop [] (Split description CHR 0x0A)"

record scan =
  outputs :: "string \<rightharpoonup> string"
  currentHost :: string
  capturing :: bool
  outputBuilder :: string

definition scanLine :: "scan \<Rightarrow> string \<Rightarrow> scan" where
  \<comment> \<open>one iteration of the loop of \<^verbatim>\<open>extractHostOutputs\<close>.\<close>
  "scanLine st line =
     (let trimmedLine = TrimSpace line in
      if HasPrefix trimmedLine ''[OUTPUT-'' \<and> \<not> HasPrefix trimmedLine ''[/OUTPUT-'' then
        st\<lparr>currentHost := TrimSuffix (TrimPrefix trimmedLine ''[OUTPUT-'') '']'',
           capturing := True,
           outputBuilder := []\<rparr>
      else if HasPrefix trimmedLine ''[/OUTPUT-'' then
        (if capturing st \<and> currentHost st \<noteq> []
         then st\<lparr>outputs := (outputs st)(currentHost st \<mapsto> outputBuilder st)\<rparr>
         else st)\<lparr>capturing := False, currentHost := []\<rparr>
      else if capturing st then
        st\<lparr>outputBuilder :=
             (if 0 < length (outputBuilder st) then outputBuilder st @ ''\<newline>''
              else outputBuilder st) @ line\<rparr>
      else st)"

definition scanInit :: scan where
  "scanInit = \<lparr>outputs = Map.empty, currentHost = [], capturing = False, outputBuilder = []\<rparr>"

definition extractHostOutputs :: "string \<Rightarrow> (string \<rightharpoonup> string)" where
  "extractHostOutputs description =
     outputs (foldl scanLine scanInit (Split description CHR 0x0A))"

definition eventStatus :: "string \<Rightarrow> string" where
  \<comment> \<open>the status column of \<^verbatim>\<open>ListEvents\<close>, from the raw description value.\<close>
  "eventStatus rawDescription =
     (let description = unescapeNewlines rawDescription;
          hosts = getExecutedHosts description
      in if 0 < length hosts then ''Executed ('' @ Join hosts '', '' @ '')'' else ''Pending'')"

definition listRow :: "CalendarObject \<Rightarrow> panic + (string \<times> string \<times> string) option" where
  \<comment> \<open>the body of the loop of \<^verbatim>\<open>ListEvents\<close>: the row \<open>(uid, cmd, status)\<close> it prints, if any.\<close>
  "listRow eventData =
     (case Data eventData of
        None \<Rightarrow> Inr None
      | Some [] \<Rightarrow> Inl IndexOutOfRange
      | Some (ev # _) \<Rightarrow>
          (case (SUMMARY ev, DESCRIPTION ev, UID ev) of
             (Some summary, Some description, Some uid) \<Rightarrow>
               if HasPrefix summary ''Meeting from nobody:''
               then Inr (Some (uid, TrimPrefix summary ''Meeting from nobody: '', eventStatus description))
               else Inr None
           | _ \<Rightarrow> Inl NilDereference))"

fun clearLoop :: "(string \<Rightarrow> bool) \<Rightarrow> CalendarObject list \<Rightarrow> string list \<times> nat
    \<Rightarrow> panic + (string list \<times> nat)" where
  \<comment> \<open>the loop of \<^verbatim>\<open>ClearExecutedEvents\<close>; the state is the paths removed so far and \<^verbatim>\<open>count\<close>.
     The first argument tells for which paths \<^verbatim>\<open>RemoveAll\<close> succeeds.\<close>
  "clearLoop removes [] (gone, count) = Inr (gone, count)"
| "clearLoop removes (event # events) (gone, count) =
     (case Data event of
        None \<Rightarrow> clearLoop removes events (gone, count)
      | Some [] \<Rightarrow> clearLoop removes events (gone, count)
      | Some (ev # _) \<Rightarrow>
          (case DESCRIPTION ev of
             None \<Rightarrow> Inl NilDereference
           | Some raw \<Rightarrow>
               (let description = unescapeNewlines raw;
                    hosts = getExecutedHosts description
                in if 0 < length hosts then
                     (if removes (Path event)
                      then clearLoop removes events (gone @ [Path event], count + 1)
                      else clearLoop removes events (gone, count))
                   else clearLoop removes events (gone, count))))"

definition ClearExecutedEvents :: "(string \<Rightarrow> bool) \<Rightarrow> CalendarObject list
    \<Rightarrow> panic + (string list \<times> nat)" where
  "ClearExecutedEvents removes events = clearLoop removes events ([], 0)"

section \<open>Guest\<close>

record Guest =
  commandPrefix :: string
  hostname :: string

definition NewGuest :: "string \<Rightarrow> Guest" where
  \<comment> \<open>the argument is what \<^verbatim>\<open>os.Hostname\<close> returned.\<close>
  "NewGuest h = \<lparr>commandPrefix = ''Meeting from nobody:'', hostname = h\<rparr>"

text \<open>
  What the guest reads from its machine. A file's content is a string of bytes. The effects
  of a command on the machine itself, and the delayed removal and exit that \<^verbatim>\<open>exit\<close>
  schedules, are outside the model: a command is its output.
\<close>

record os_env =
  Getenv :: "string \<Rightarrow> string"
  Getwd :: string
  GOOS :: string
  GOARCH :: string
  ReadFile :: "string \<Rightarrow> string + string"
  CombinedOutput :: "string \<Rightarrow> string \<Rightarrow> string \<Rightarrow> (string \<times> string) + string"

definition ExecuteCommand :: "Guest \<Rightarrow> os_env \<Rightarrow> string \<Rightarrow> string \<Rightarrow> string" where
  \<comment> \<open>\<^verbatim>\<open>ReadFile\<close> and \<^verbatim>\<open>CombinedOutput\<close> answer \<open>Inl\<close> with the error text when they fail
     (\<^verbatim>\<open>CombinedOutput\<close> together with the output so far).\<close>
  "ExecuteCommand g env command args =
     (let hostInfo = ''[Host: '' @ hostname g @ '']\<newline>'' in
      if command = ''whoami'' then
        (let user = Getenv env ''USER'';
             user = (if user = [] then Getenv env ''USERNAME'' else user);
             user = (if user = [] then ''unknown'' else user)
         in hostInfo @ ''User: '' @ user @ ''\<newline>Hostname: '' @ hostname g @
            ''\<newline>OS: '' @ GOOS env @ ''/'' @ GOARCH env)
      else if command = ''pwd'' then hostInfo @ Getwd env
      else if command = ''upload'' then
        (let filepath = TrimSpace args in
         case ReadFile env filepath of
           Inl err \<Rightarrow> hostInfo @ ''Error: '' @ err
         | Inr data \<Rightarrow>
             hostInfo @ ''File: '' @ filepath @ ''\<newline>[DATA]\<newline>'' @ EncodeToString data @
             ''\<newline>[/DATA]'')
      else if command = ''exit'' then hostInfo @ ''Terminating...''
      else
        (case (if GOOS env = ''windows''
               then CombinedOutput env ''cmd'' ''/c'' (command @ '' '' @ args)
               else CombinedOutput env ''sh'' ''-c'' (command @ '' '' @ args)) of
           Inl (err, out) \<Rightarrow> hostInfo @ ''Error: '' @ err @ ''\<newline>'' @ out
         | Inr out \<Rightarrow> hostInfo @ out))"

definition AppendBlock :: "string \<Rightarrow> string \<Rightarrow> string \<Rightarrow> string" where
  \<comment> \<open>\<^verbatim>\<open>newDescription\<close> of \<^verbatim>\<open>UpdateEventWithOutput\<close>.\<close>
  "AppendBlock description host body =
     description @ ''\<newline>\<newline>[OUTPUT-'' @ host @ '']\<newline>'' @ body @ ''\<newline>[/OUTPUT-'' @ host @ '']''"

definition textOf :: "string option \<Rightarrow> string" where
  \<comment> \<open>\<^verbatim>\<open>Props.Text\<close> with its error dropped: the empty string when there is no value.\<close>
  "textOf p = (case p of None \<Rightarrow> [] | Some s \<Rightarrow> s)"

definition UpdateEventWithOutput :: "Guest \<Rightarrow> (string \<Rightarrow> bool) \<Rightarrow> string \<Rightarrow> string \<Rightarrow> store
    \<Rightarrow> panic + store" where
  \<comment> \<open>fetch, append, put back. The second argument tells for which paths
     \<^verbatim>\<open>PutCalendarObject\<close> succeeds. A failed fetch and a failed put leave the store as it is;
     the error the function then returns is left out, since its caller drops it.\<close>
  "UpdateEventWithOutput g puts out eventPath st =
     (case st eventPath of
        None \<Rightarrow> Inr st
      | Some obj \<Rightarrow>
          (case Data obj of
             None \<Rightarrow> Inr st
           | Some [] \<Rightarrow> Inl IndexOutOfRange
           | Some (ev # rest) \<Rightarrow>
               (if puts eventPath then
                  Inr (st(eventPath \<mapsto>
                    obj\<lparr>Data := Some (ev\<lparr>DESCRIPTION :=
                      Some (AppendBlock (textOf (DESCRIPTION ev)) (hostname g) out)\<rparr> # rest)\<rparr>))
                else Inr st)))"

definition HasBlock :: "string \<Rightarrow> string \<Rightarrow> bool" where
  \<comment> \<open>the guest's test for its own start marker.\<close>
  "HasBlock description host = Contains description (''[OUTPUT-'' @ host @ '']'')"

definition parseTarget :: "string \<Rightarrow> string \<times> string" where
  \<comment> \<open>\<^verbatim>\<open>targetHost\<close> and \<^verbatim>\<open>actualCmd\<close> of \<^verbatim>\<open>CheckAndExecute\<close>, from \<^verbatim>\<open>commandLine\<close>.\<close>
  "parseTarget commandLine =
     (if HasPrefix commandLine ''@'' then
        (case SplitN2 commandLine CHR '':'' of
           [p0, p1] \<Rightarrow> (TrimPrefix p0 ''@'', p1)
         | _ \<Rightarrow> ([], commandLine))
      else ([], commandLine))"

definition ShouldExecute :: "string \<Rightarrow> string \<Rightarrow> bool" where
  \<comment> \<open>the negation of the test that makes \<^verbatim>\<open>CheckAndExecute\<close> skip a targeted entry.\<close>
  "ShouldExecute targetHost localHost \<longleftrightarrow>
     \<not> (targetHost \<noteq> [] \<and> targetHost \<noteq> localHost \<and> targetHost \<noteq> ''*'')"

definition splitCommand :: "string \<Rightarrow> string \<times> string" where
  \<comment> \<open>\<^verbatim>\<open>command\<close> and \<^verbatim>\<open>args\<close> of \<^verbatim>\<open>CheckAndExecute\<close>, from \<^verbatim>\<open>actualCmd\<close>.\<close>
  "splitCommand actualCmd =
     (let cmdParts = Fields actualCmd;
          command = (if 0 < length cmdParts then hd cmdParts else []);
          args = (if 1 < length cmdParts then Join (tl cmdParts) '' '' else [])
      in (command, args))"

definition decide :: "Guest \<Rightarrow> string \<Rightarrow> string \<Rightarrow> (string \<times> string) option" where
  \<comment> \<open>the filters of \<^verbatim>\<open>CheckAndExecute\<close> from the prefix test on: \<open>None\<close> is \<^verbatim>\<open>continue\<close>,
     \<open>Some (command, args)\<close> is what gets executed.\<close>
  "decide g summary description =
     (if \<not> HasPrefix summary (commandPrefix g) then None
      else if HasBlock description (hostname g) then None
      else
        (let commandLine = TrimSpace (TrimPrefix summary (commandPrefix g));
             (targetHost, actualCmd) = parseTarget commandLine
         in if ShouldExecute targetHost (hostname g) then Some (splitCommand actualCmd) else None))"

text \<open>
  The world of a guest: the objects of the calendar store, the paths on which the store
  accepts a put, and the calls of \<^verbatim>\<open>ExecuteCommand\<close> made so far, in order.
\<close>

record world =
  objects :: store
  putSucceeds :: "string \<Rightarrow> bool"
  executed :: "(string \<times> string) list"

definition processEvent :: "Guest \<Rightarrow> os_env \<Rightarrow> CalendarObject \<Rightarrow> world
    \<Rightarrow> (panic \<times> world) + world" where
  \<comment> \<open>the body of the loop of \<^verbatim>\<open>CheckAndExecute\<close>. \<open>Inl\<close> is a panic, with the world it
     leaves: the command has run by then.\<close>
  "processEvent g env eventData w =
     (case Data eventData of
        None \<Rightarrow> Inr w
      | Some [] \<Rightarrow> Inr w
      | Some (ev # _) \<Rightarrow>
          (case SUMMARY ev of
             None \<Rightarrow> Inr w
           | Some summary \<Rightarrow>
               (case decide g summary (textOf (DESCRIPTION ev)) of
                  None \<Rightarrow> Inr w
                | Some (command, args) \<Rightarrow>
                    (case UpdateEventWithOutput g (putSucceeds w)
                            (ExecuteCommand g env command args) (Path eventData) (objects w) of
                       Inl p \<Rightarrow> Inl (p, w\<lparr>executed := executed w @ [(command, args)]\<rparr>)
                     | Inr st \<Rightarrow>
                         Inr (w\<lparr>objects := st, executed := executed w @ [(command, args)]\<rparr>)))))"

fun CheckAndExecute :: "Guest \<Rightarrow> os_env \<Rightarrow> CalendarObject list \<Rightarrow> world
    \<Rightarrow> (panic \<times> world) + world" where
  \<comment> \<open>the loop over the events the query returned.\<close>
  "CheckAndExecute g env [] w = Inr w"
| "CheckAndExecute g env (eventData # events) w =
     (case processEvent g env eventData w of
        Inl pw \<Rightarrow> Inl pw
      | Inr w' \<Rightarrow> CheckAndExecute g env events w')"

definition worldOf :: "(panic \<times> world) + world \<Rightarrow> world" where
  \<comment> \<open>the world a step leaves, whether it panicked or not.\<close>
  "worldOf r = (case r of Inl (p, w) \<Rightarrow> w | Inr w \<Rightarrow> w)"

section \<open>The protocol's view of the summary\<close>

datatype TargetSpec = Broadcast | Wildcard | Host string

definition targetOf :: "string \<Rightarrow> TargetSpec" where
  \<comment> \<open>how the guest reads \<^verbatim>\<open>targetHost\<close>: empty is no annotation, \<^verbatim>\<open>*\<close> is every host.\<close>
  "targetOf targetHost =
     (if targetHost = [] then Broadcast else if targetHost = ''*'' then Wildcard else Host targetHost)"

definition annotation :: "TargetSpec \<Rightarrow> string" where
  \<comment> \<open>what the operator types before the command, as the console's help lists it.\<close>
  "annotation t = (case t of Broadcast \<Rightarrow> [] | Wildcard \<Rightarrow> ''@*:'' | Host h \<Rightarrow> ''@'' @ h @ '':'')"

definition Encode :: "string \<Rightarrow> string list \<Rightarrow> TargetSpec \<Rightarrow> string" where
  \<comment> \<open>the summary \<^verbatim>\<open>CreateCommand\<close> writes for the line \<open>annotation, command, arguments\<close>.\<close>
  "Encode command args t =
     textOf (SUMMARY (CreateCommand [] (annotation t @ Join (command # args) '' '')))"

definition Decode :: "string \<Rightarrow> (string \<times> string list \<times> TargetSpec) option" where
  \<comment> \<open>the guest's reading of a summary, without the filters: command, arguments, target.\<close>
  "Decode summary =
     (if \<not> HasPrefix summary ''Meeting from nobody:'' then None
      else
        (let commandLine = TrimSpace (TrimPrefix summary ''Meeting from nobody:'');
             (targetHost, actualCmd) = parseTarget commandLine;
             (command, args) = splitCommand actualCmd
         in Some (command, Fields args, targetOf targetHost)))"

section \<open>The scan of the description as a two-state machine\<close>

text \<open>
  The reading of \<^verbatim>\<open>extractHostOutputs\<close> that the refinement theorem below compares with the
  loop: a state is idle, or capturing for a host with the lines taken so far.
\<close>

datatype capture = Idle | Capturing string "string list"

definition isStartLine :: "string \<Rightarrow> bool" where
  "isStartLine line \<longleftrightarrow> HasPrefix (TrimSpace line) ''[OUTPUT-''"

definition isEndLine :: "string \<Rightarrow> bool" where
  "isEndLine line \<longleftrightarrow> HasPrefix (TrimSpace line) ''[/OUTPUT-''"

definition startHost :: "string \<Rightarrow> string" where
  "startHost line = TrimSuffix (TrimPrefix (TrimSpace line) ''[OUTPUT-'') '']''"

definition bodyOf :: "string list \<Rightarrow> string" where
  \<comment> \<open>the captured lines joined by line feeds, the empty lines in front dropped.\<close>
  "bodyOf ls = Join (dropWhile (\<lambda>l. l = []) ls) ''\<newline>''"

fun machineStep :: "(string \<rightharpoonup> string) \<times> capture \<Rightarrow> string \<Rightarrow> (string \<rightharpoonup> string) \<times> capture" where
  "machineStep (m, c) line =
     (if isStartLine line then (m, Capturing (startHost line) [])
      else if isEndLine line then
        (case c of
           Idle \<Rightarrow> (m, Idle)
         | Capturing h ls \<Rightarrow> (if h = [] then m else m(h \<mapsto> bodyOf ls), Idle))
      else
        (case c of
           Idle \<Rightarrow> (m, Idle)
         | Capturing h ls \<Rightarrow> (m, Capturing h (ls @ [line]))))"

definition machineRun :: "string \<Rightarrow> (string \<rightharpoonup> string)" where
  "machineRun description =
     fst (foldl machineStep (Map.empty, Idle) (Split description CHR 0x0A))"

text \<open>
  The machine as the specification words it: only the end marker that carries the host of
  the running capture commits, under that host, all the lines taken; any other line of a
  capture is taken as it is.
\<close>

fun specStep :: "(string \<rightharpoonup> string) \<times> capture \<Rightarrow> string \<Rightarrow> (string \<rightharpoonup> string) \<times> capture" where
  "specStep (m, c) line =
     (if isStartLine line then (m, Capturing (startHost line) [])
      else
        (case c of
           Idle \<Rightarrow> (m, Idle)
         | Capturing h ls \<Rightarrow>
             if TrimSpace line = ''[/OUTPUT-'' @ h @ '']''
             then (m(h \<mapsto> Join ls ''\<newline>''), Idle)
             else (m, Capturing h (ls @ [line]))))"

definition specExtractAll :: "string \<Rightarrow> (string \<rightharpoonup> string)" where
  "specExtractAll description =
     fst (foldl specStep (Map.empty, Idle) (Split description CHR 0x0A))"

definition simulates :: "scan \<Rightarrow> (string \<rightharpoonup> string) \<times> capture \<Rightarrow> bool" where
  \<comment> \<open>the loop's variables against a machine state.\<close>
  "simulates st mc =
     (outputs st = fst mc \<and>
      (case snd mc of
         Idle \<Rightarrow> \<not> capturing st
       | Capturing h ls \<Rightarrow> capturing st \<and> currentHost st = h \<and> outputBuilder st = bodyOf ls))"

section \<open>A machine to run the examples on\<close>

definition exampleEnv :: os_env where
  "exampleEnv =
     \<lparr>Getenv = (\<lambda>_. []), Getwd = ''/'', GOOS = ''linux'', GOARCH = ''amd64'',
      ReadFile = (\<lambda>p. if p = ''a'' then Inr ''hi''
                      else Inl (''open '' @ p @ '': no such file or directory'')),
      CombinedOutput = (\<lambda>shell flag line. Inr (''ran '' @ line))\<rparr>"

definition exampleEntry :: "string \<Rightarrow> CalendarObject" where
  \<comment> \<open>a fresh entry with the given summary, as \<^verbatim>\<open>CreateCommand\<close> puts it.\<close>
  "exampleEntry summary =
     \<lparr>Path = ''/cal/1.ics'',
      Data = Some [\<lparr>SUMMARY = Some summary, DESCRIPTION = Some [], UID = Some ''1''\<rparr>]\<rparr>"

definition exampleWorld :: "string \<Rightarrow> world" where
  \<comment> \<open>a store that holds that entry and accepts every put; nothing executed yet.\<close>
  "exampleWorld summary =
     \<lparr>objects = [''/cal/1.ics'' \<mapsto> exampleEntry summary],
      putSucceeds = (\<lambda>_. True),
      executed = []\<rparr>"

section \<open>Facts about the string primitives\<close>

lemma HasPrefix_append [simp]: "HasPrefix (p @ s) p"
  by (simp add: HasPrefix_def)

lemma HasPrefix_iff: "HasPrefix s p \<longleftrightarrow> (\<exists>r. s = p @ r)"
  unfolding HasPrefix_def by (metis append_eq_conv_conj append_take_drop_id)

lemma Split_not_Nil [simp]: "Split s sep \<noteq> []"
  by (induction s) (auto split: list.splits)

lemma Split_append_sep: "Split (a @ sep # b) sep = Split a sep @ Split b sep"
  by (induction a) (auto split: list.splits)

lemma Split_no_sep: "sep \<notin> set s \<Longrightarrow> Split s sep = [s]"
  by (induction s) auto

lemma fieldsFrom_word:
  "\<forall>c\<in>set w. \<not> isSpace c \<Longrightarrow> fieldsFrom cur (w @ s) = fieldsFrom (cur @ w) s"
  by (induction w arbitrary: cur) simp_all

lemma fieldsFrom_spaces:
  "\<forall>c\<in>set ws. isSpace c \<Longrightarrow> fieldsFrom cur ws = fieldsFrom cur []"
  by (induction ws arbitrary: cur) simp_all

lemma fieldsFrom_append_spaces:
  "\<forall>c\<in>set ws. isSpace c \<Longrightarrow> fieldsFrom cur (s @ ws) = fieldsFrom cur s"
proof (induction s arbitrary: cur)
  case Nil
  then show ?case using fieldsFrom_spaces [of ws cur] by simp
next
  case (Cons c s)
  then show ?case by simp
qed

lemma fieldsFrom_leading_spaces:
  "fieldsFrom [] (dropWhile isSpace s) = fieldsFrom [] s"
  by (induction s) simp_all

lemma trimRight_decomp:
  "s = rev (dropWhile isSpace (rev s)) @ rev (takeWhile isSpace (rev s))"
  by (metis rev_append rev_rev_ident takeWhile_dropWhile_id)

lemma Fields_trimRight: "Fields (rev (dropWhile isSpace (rev s))) = Fields s"
proof -
  have sp: "\<forall>c\<in>set (rev (takeWhile isSpace (rev s))). isSpace c"
    by (auto dest: set_takeWhileD)
  have "Fields s = Fields (rev (dropWhile isSpace (rev s)) @ rev (takeWhile isSpace (rev s)))"
    using trimRight_decomp [of s] by simp
  also have "\<dots> = Fields (rev (dropWhile isSpace (rev s)))"
    unfolding Fields_def using sp by (rule fieldsFrom_append_spaces)
  finally show ?thesis by simp
qed

lemma Fields_TrimSpace: "Fields (TrimSpace s) = Fields s"
  unfolding TrimSpace_def Fields_trimRight by (simp add: Fields_def fieldsFrom_leading_spaces)

lemma fieldsFrom_tokens:
  "w \<in> set (fieldsFrom cur s) \<Longrightarrow> \<forall>c\<in>set cur. \<not> isSpace c \<Longrightarrow>
     w \<noteq> [] \<and> (\<forall>c\<in>set w. \<not> isSpace c)"
proof (induction s arbitrary: cur)
  case Nil
  then show ?case by (auto split: if_splits)
next
  case (Cons a s)
  show ?case
  proof (cases "isSpace a")
    case True
    with Cons.prems have "w = cur \<and> cur \<noteq> [] \<or> w \<in> set (fieldsFrom [] s)"
      by (auto split: if_splits)
    then show ?thesis using Cons.IH [of "[]"] Cons.prems(2) by auto
  next
    case False
    with Cons.prems have "w \<in> set (fieldsFrom (cur @ [a]) s)" by simp
    then show ?thesis using Cons.IH [of "cur @ [a]"] Cons.prems(2) False by auto
  qed
qed

lemma Fields_tokens: "w \<in> set (Fields s) \<Longrightarrow> w \<noteq> [] \<and> (\<forall>c\<in>set w. \<not> isSpace c)"
  unfolding Fields_def using fieldsFrom_tokens [of w "[]" s] by simp

lemma isSpace_blank [simp]: "isSpace CHR '' ''"
  by (simp add: isSpace_def)

lemma Fields_Join:
  "\<forall>w\<in>set ws. w \<noteq> [] \<and> (\<forall>c\<in>set w. \<not> isSpace c) \<Longrightarrow> Fields (Join ws '' '') = ws"
proof (induction ws "'' ''" rule: Join.induct)
  case 1
  then show ?case by (simp add: Fields_def)
next
  case (2 x)
  then show ?case using fieldsFrom_word [of x "[]" "[]"] by (simp add: Fields_def)
next
  case (3 x y ys)
  then have "fieldsFrom [] (x @ CHR '' '' # Join (y # ys) '' '') = fieldsFrom x (CHR '' '' # Join (y # ys) '' '')"
    using fieldsFrom_word [of x "[]"] by simp
  with 3 show ?case by (simp add: Fields_def)
qed

lemma dropWhile_hd_id: "s = [] \<or> \<not> P (hd s) \<Longrightarrow> dropWhile P s = s"
  by (cases s) auto

lemma TrimSpace_id:
  assumes "s = [] \<or> \<not> isSpace (hd s) \<and> \<not> isSpace (last s)"
  shows "TrimSpace s = s"
proof -
  have "dropWhile isSpace s = s" using assms by (intro dropWhile_hd_id) auto
  moreover have "dropWhile isSpace (rev s) = rev s"
    using assms by (intro dropWhile_hd_id) (auto simp: hd_rev)
  ultimately show ?thesis by (simp add: TrimSpace_def)
qed

lemma TrimSpace_leading: "isSpace c \<Longrightarrow> TrimSpace (c # s) = TrimSpace s"
  by (simp add: TrimSpace_def)

lemma Join_nonempty: "ws \<noteq> [] \<Longrightarrow> \<forall>w\<in>set ws. w \<noteq> [] \<Longrightarrow> Join ws sep \<noteq> []"
  by (induction ws sep rule: Join.induct) auto

lemma hd_Join: "ws \<noteq> [] \<Longrightarrow> hd ws \<noteq> [] \<Longrightarrow> hd (Join ws sep) = hd (hd ws)"
  by (induction ws sep rule: Join.induct) auto

lemma last_Join:
  "ws \<noteq> [] \<Longrightarrow> \<forall>w\<in>set ws. w \<noteq> [] \<Longrightarrow> last (Join ws sep) = last (last ws)"
proof (induction ws sep rule: Join.induct)
  case (3 x y ys sep)
  then have "Join (y # ys) sep \<noteq> []" using Join_nonempty [of "y # ys" sep] by simp
  with 3 show ?case by simp
qed simp_all

lemma TrimSpace_Join:
  assumes "\<forall>w\<in>set ws. w \<noteq> [] \<and> (\<forall>c\<in>set w. \<not> isSpace c)"
  shows "TrimSpace (Join ws '' '') = Join ws '' ''"
proof (cases "ws = []")
  case True
  then show ?thesis by (simp add: TrimSpace_def)
next
  case False
  with assms have ne: "\<forall>w\<in>set ws. w \<noteq> []" and h: "hd ws \<noteq> []"
    and l: "last ws \<noteq> []" by auto
  have "hd (hd ws) \<in> set (hd ws)" "hd ws \<in> set ws" "last (last ws) \<in> set (last ws)" "last ws \<in> set ws"
    using False h l by auto
  with assms have "\<not> isSpace (hd (hd ws))" "\<not> isSpace (last (last ws))" by blast+
  then have "\<not> isSpace (hd (Join ws '' ''))" "\<not> isSpace (last (Join ws '' ''))"
    using False h ne by (simp_all add: hd_Join last_Join)
  then show ?thesis by (simp add: TrimSpace_id)
qed

lemma parseTarget_plain: "\<not> HasPrefix l ''@'' \<Longrightarrow> parseTarget l = ([], l)"
  by (simp add: parseTarget_def)

lemma parseTarget_no_colon: "CHR '':'' \<notin> set l \<Longrightarrow> parseTarget l = ([], l)"
  by (simp add: parseTarget_def SplitN2_def)

lemma parseTarget_annotated:
  assumes "CHR '':'' \<notin> set h"
  shows "parseTarget (''@'' @ h @ '':'' @ rest) = (h, rest)"
proof -
  have tw: "takeWhile (\<lambda>c. c \<noteq> CHR '':'') (h @ CHR '':'' # rest) = h"
    using assms by (simp add: takeWhile_append)
  have dw: "dropWhile (\<lambda>c. c \<noteq> CHR '':'') (h @ CHR '':'' # rest) = CHR '':'' # rest"
    using assms by (simp add: dropWhile_append)
  show ?thesis
    by (simp add: parseTarget_def SplitN2_def HasPrefix_def TrimPrefix_def tw dw)
qed

lemma TrimPrefix_append [simp]: "TrimPrefix (p @ s) p = s"
  by (simp add: TrimPrefix_def)

lemma splitCommand_Fields:
  "Fields l = c # as \<Longrightarrow> splitCommand l = (c, Join as '' '')"
  by (cases as) (simp_all add: splitCommand_def Let_def)

lemma Decode_line:
  assumes X: "X \<noteq> []" "\<not> isSpace (hd X)" "\<not> isSpace (last X)"
    and pt: "parseTarget X = (th, l)"
    and fl: "Fields l = c # as"
  shows "Decode (''Meeting from nobody: '' @ X) = Some (c, Fields (Join as '' ''), targetOf th)"
proof -
  have pre: "HasPrefix (''Meeting from nobody: '' @ X) ''Meeting from nobody:''"
    by (simp add: HasPrefix_def)
  have tp: "TrimPrefix (''Meeting from nobody: '' @ X) ''Meeting from nobody:'' = CHR '' '' # X"
    using TrimPrefix_append [of "''Meeting from nobody:''" "CHR '' '' # X"] by simp
  have ts: "TrimSpace (CHR '' '' # X) = X"
    using X by (simp add: TrimSpace_leading TrimSpace_id)
  show ?thesis
    unfolding Decode_def using pre by (simp add: tp ts pt splitCommand_Fields [OF fl] del: append.simps)
qed

section \<open>Lemmas on the scan of the description\<close>

lemma Join_snoc: "Join (xs @ [x]) sep = (if xs = [] then x else Join xs sep @ sep @ x)"
  by (induction xs sep rule: Join.induct) auto

lemma Join_eq_Nil: "Join xs sep = [] \<Longrightarrow> sep \<noteq> [] \<Longrightarrow> xs = [] \<or> xs = [[]]"
  by (induction xs sep rule: Join.induct) auto

lemma bodyOf_Nil [simp]: "bodyOf [] = []"
  by (simp add: bodyOf_def)

lemma bodyOf_empty_iff: "bodyOf ls = [] \<longleftrightarrow> dropWhile (\<lambda>l. l = []) ls = []"
proof
  assume "bodyOf ls = []"
  then have "dropWhile (\<lambda>l. l = []) ls = [] \<or> dropWhile (\<lambda>l. l = []) ls = [[]]"
    using Join_eq_Nil [of "dropWhile (\<lambda>l. l = []) ls" "''\<newline>''"] by (simp add: bodyOf_def)
  moreover have "dropWhile (\<lambda>l. l = []) ls \<noteq> [[]]"
  proof
    assume eq: "dropWhile (\<lambda>l. l = []) ls = [[]]"
    then have "dropWhile (\<lambda>l. l = []) ls \<noteq> []" by simp
    then have "hd (dropWhile (\<lambda>l. l = []) ls) \<noteq> []" by (rule hd_dropWhile)
    with eq show False by simp
  qed
  ultimately show "dropWhile (\<lambda>l. l = []) ls = []" by blast
next
  assume a: "dropWhile (\<lambda>l. l = []) ls = []"
  show "bodyOf ls = []" unfolding bodyOf_def a by simp
qed

lemma bodyOf_snoc:
  "bodyOf (ls @ [line]) = (if bodyOf ls = [] then line else bodyOf ls @ ''\<newline>'' @ line)"
proof (cases "dropWhile (\<lambda>l. l = []) ls = []")
  case True
  then have all: "\<forall>l\<in>set ls. l = []" by (simp add: dropWhile_eq_Nil_conv)
  have "bodyOf ls = []" using True by (simp add: bodyOf_empty_iff)
  moreover have "bodyOf (ls @ [line]) = line"
    using all by (cases "line = []") (simp_all add: bodyOf_def dropWhile_append)
  ultimately show ?thesis by simp
next
  case False
  then have ex: "\<not> (\<forall>l\<in>set ls. l = [])" by (simp add: dropWhile_eq_Nil_conv)
  have ne: "bodyOf ls \<noteq> []" using False by (simp add: bodyOf_empty_iff)
  have "dropWhile (\<lambda>l. l = []) (ls @ [line]) = dropWhile (\<lambda>l. l = []) ls @ [line]"
    using ex by (simp add: dropWhile_append)
  then have "bodyOf (ls @ [line]) = bodyOf ls @ ''\<newline>'' @ line"
    using False by (simp add: bodyOf_def Join_snoc)
  with ne show ?thesis by simp
qed

lemma start_not_end: "HasPrefix t ''[OUTPUT-'' \<Longrightarrow> \<not> HasPrefix t ''[/OUTPUT-''"
proof -
  assume "HasPrefix t ''[OUTPUT-''"
  then obtain r where t: "t = ''[OUTPUT-'' @ r" unfolding HasPrefix_iff by blast
  show ?thesis unfolding t HasPrefix_def by simp
qed

lemma scanLine_start:
  "isStartLine line \<Longrightarrow> scanLine st line =
     st\<lparr>currentHost := startHost line, capturing := True, outputBuilder := []\<rparr>"
  unfolding scanLine_def Let_def isStartLine_def startHost_def
  by (simp add: start_not_end)

lemma scanLine_end:
  "\<not> isStartLine line \<Longrightarrow> isEndLine line \<Longrightarrow> scanLine st line =
     (if capturing st \<and> currentHost st \<noteq> []
         then st\<lparr>outputs := (outputs st)(currentHost st \<mapsto> outputBuilder st)\<rparr>
         else st)\<lparr>capturing := False, currentHost := []\<rparr>"
  unfolding scanLine_def Let_def isStartLine_def isEndLine_def
  by simp

lemma scanLine_other:
  "\<not> isStartLine line \<Longrightarrow> \<not> isEndLine line \<Longrightarrow> scanLine st line =
     (if capturing st then
        st\<lparr>outputBuilder :=
             (if outputBuilder st = [] then line else outputBuilder st @ ''\<newline>'' @ line)\<rparr>
      else st)"
  unfolding scanLine_def Let_def isStartLine_def isEndLine_def
  by simp

lemma simulates_step:
  assumes "simulates st mc"
  shows "simulates (scanLine st line) (machineStep mc line)"
proof -
  obtain m c where mc: "mc = (m, c)" by (cases mc)
  consider (start) "isStartLine line"
    | (ending) "\<not> isStartLine line" "isEndLine line"
    | (other) "\<not> isStartLine line" "\<not> isEndLine line" by blast
  then show ?thesis
  proof cases
    case start
    with assms show ?thesis
      by (simp add: mc scanLine_start simulates_def)
  next
    case ending
    with assms show ?thesis
      by (cases c) (simp_all add: mc scanLine_end simulates_def)
  next
    case other
    with assms show ?thesis
      by (cases c) (simp_all add: mc scanLine_other simulates_def bodyOf_snoc)
  qed
qed

lemma simulates_foldl:
  "simulates st mc \<Longrightarrow> simulates (foldl scanLine st ls) (foldl machineStep mc ls)"
  by (induction ls arbitrary: st mc) (simp_all add: simulates_step)

section \<open>Lemmas on the list of executed hosts\<close>

lemma HasSuffix_iff: "HasSuffix s p \<longleftrightarrow> (\<exists>r. s = r @ p)"
proof
  assume "HasSuffix s p"
  then have "s = take (length s - length p) s @ p"
    unfolding HasSuffix_def by (metis append_take_drop_id)
  then show "\<exists>r. s = r @ p" ..
next
  assume "\<exists>r. s = r @ p"
  then show "HasSuffix s p" by (auto simp: HasSuffix_def)
qed

lemma marker_line_iff:
  "HasPrefix l ''[OUTPUT-'' \<and> HasSuffix l '']'' \<longleftrightarrow> (\<exists>h. l = ''[OUTPUT-'' @ h @ '']'')"
proof
  assume a: "HasPrefix l ''[OUTPUT-'' \<and> HasSuffix l '']''"
  then obtain r where r: "l = ''[OUTPUT-'' @ r" unfolding HasPrefix_iff by blast
  from a obtain q where q: "l = q @ '']''" unfolding HasSuffix_iff by blast
  show "\<exists>h. l = ''[OUTPUT-'' @ h @ '']''"
  proof (cases r rule: rev_cases)
    case Nil
    with r q have "last ''[OUTPUT-'' = last (q @ '']'')" by simp
    then show ?thesis by simp
  next
    case (snoc h x)
    with r q have "last (''[OUTPUT-'' @ h @ [x]) = last (q @ '']'')" by simp
    then have "x = CHR '']''" by simp
    with r snoc show ?thesis by auto
  qed
next
  assume "\<exists>h. l = ''[OUTPUT-'' @ h @ '']''"
  then obtain h where "l = ''[OUTPUT-'' @ h @ '']''" ..
  then have "HasPrefix l ''[OUTPUT-''" "l = (''[OUTPUT-'' @ h) @ '']''"
    by (simp_all add: HasPrefix_def)
  then show "HasPrefix l ''[OUTPUT-'' \<and> HasSuffix l '']''"
    unfolding HasSuffix_iff by blast
qed

lemma marker_host:
  "TrimSuffix (TrimPrefix (''[OUTPUT-'' @ h @ '']'') ''[OUTPUT-'') '']'' = h"
proof -
  have "TrimPrefix (''[OUTPUT-'' @ (h @ '']'')) ''[OUTPUT-'' = h @ '']''"
    by (rule TrimPrefix_append)
  then show ?thesis by (simp add: TrimSuffix_def HasSuffix_def)
qed

lemma hostsLoop_acc: "hostsLoop hosts lines = hosts @ hostsLoop [] lines"
proof (induction lines arbitrary: hosts)
  case Nil
  then show ?case by simp
next
  case (Cons l lines)
  show ?case
    using Cons [of "hosts @ [TrimSuffix (TrimPrefix l ''[OUTPUT-'') '']'']"]
      Cons [of "[TrimSuffix (TrimPrefix l ''[OUTPUT-'') '']'']"] Cons [of hosts]
    by simp
qed

lemma hostsLoop_append: "hostsLoop [] (xs @ ys) = hostsLoop [] xs @ hostsLoop [] ys"
proof (induction xs)
  case Nil
  then show ?case by simp
next
  case (Cons l xs)
  then show ?case
    using hostsLoop_acc [of "[TrimSuffix (TrimPrefix l ''[OUTPUT-'') '']'']"] by simp
qed

lemma hostsLoop_Cons_marker:
  "hostsLoop [] ((''[OUTPUT-'' @ k @ '']'') # lines) = k # hostsLoop [] lines"
proof -
  define m where "m = ''[OUTPUT-'' @ k @ '']''"
  have c: "HasPrefix m ''[OUTPUT-'' \<and> HasSuffix m '']''"
    unfolding marker_line_iff m_def by blast
  have k: "TrimSuffix (TrimPrefix m ''[OUTPUT-'') '']'' = k"
    unfolding m_def by (rule marker_host)
  have "hostsLoop [] (m # lines) = hostsLoop [k] lines"
    using c k by simp
  also have "\<dots> = [k] @ hostsLoop [] lines" by (rule hostsLoop_acc)
  finally show ?thesis unfolding m_def by simp
qed

lemma hostsLoop_Cons_other:
  "\<not> (HasPrefix l ''[OUTPUT-'' \<and> HasSuffix l '']'') \<Longrightarrow> hostsLoop [] (l # lines) = hostsLoop [] lines"
  by (simp only: hostsLoop.simps if_False)

lemma set_hostsLoop:
  "h \<in> set (hostsLoop [] lines) \<longleftrightarrow> ''[OUTPUT-'' @ h @ '']'' \<in> set lines"
proof (induction lines)
  case Nil
  then show ?case by simp
next
  case (Cons l lines)
  show ?case
  proof (cases "HasPrefix l ''[OUTPUT-'' \<and> HasSuffix l '']''")
    case True
    then obtain k where k: "l = ''[OUTPUT-'' @ k @ '']''" unfolding marker_line_iff ..
    show ?thesis unfolding k hostsLoop_Cons_marker using Cons by auto
  next
    case False
    then have "l \<noteq> ''[OUTPUT-'' @ h @ '']''" using marker_line_iff [of l] by blast
    then show ?thesis unfolding hostsLoop_Cons_other [OF False] using Cons by auto
  qed
qed

section \<open>Lemmas on the guest's filters\<close>

lemma Contains_append: "Contains (a @ sub @ b) sub"
proof (induction a)
  case Nil
  show ?case
  proof (cases "sub @ b")
    case Nil
    then show ?thesis by simp
  next
    case (Cons x xs)
    have "HasPrefix (sub @ b) sub" by (rule HasPrefix_append)
    then show ?thesis using Cons by simp
  qed
next
  case (Cons x a)
  then show ?case by simp
qed

lemma Contains_iff: "Contains s sub \<longleftrightarrow> (\<exists>a b. s = a @ sub @ b)"
proof
  show "Contains s sub \<Longrightarrow> \<exists>a b. s = a @ sub @ b"
  proof (induction s)
    case Nil
    then show ?case by simp
  next
    case (Cons c s)
    show ?case
    proof (cases "HasPrefix (c # s) sub")
      case True
      then obtain r where "c # s = sub @ r" unfolding HasPrefix_iff ..
      then have "c # s = [] @ sub @ r" by simp
      then show ?thesis by blast
    next
      case False
      with Cons obtain a b where "s = a @ sub @ b" by auto
      then have "c # s = (c # a) @ sub @ b" by simp
      then show ?thesis by blast
    qed
  qed
next
  show "\<exists>a b. s = a @ sub @ b \<Longrightarrow> Contains s sub"
    using Contains_append by blast
qed

lemma splitCommand_cong: "Fields a = Fields b \<Longrightarrow> splitCommand a = splitCommand b"
  by (simp add: splitCommand_def)

lemma fieldsFrom_first:
  "cur \<noteq> [] \<Longrightarrow> fieldsFrom cur s =
     (cur @ takeWhile (\<lambda>c. \<not> isSpace c) s) # fieldsFrom [] (dropWhile (\<lambda>c. \<not> isSpace c) s)"
  by (induction s arbitrary: cur) simp_all

lemma trimRight_keep:
  "\<not> isSpace x \<Longrightarrow> rev (dropWhile isSpace (rev (a @ x # b))) = a @ x # rev (dropWhile isSpace (rev b))"
  by (simp add: dropWhile_append)

lemma dropWhile_all: "\<forall>c\<in>set ws. P c \<Longrightarrow> \<not> P x \<Longrightarrow> dropWhile P (ws @ x # s) = x # s"
  by (simp add: dropWhile_append)

lemma decide_run:
  assumes "HasPrefix summary ''Meeting from nobody:''"
    and "parseTarget (TrimSpace (TrimPrefix summary ''Meeting from nobody:'')) = (th, l)"
  shows "decide (NewGuest h) summary description =
     (if HasBlock description h then None
      else if ShouldExecute th h then Some (splitCommand l) else None)"
  using assms by (simp add: decide_def NewGuest_def)

lemma Decode_run:
  assumes "HasPrefix summary ''Meeting from nobody:''"
    and "parseTarget (TrimSpace (TrimPrefix summary ''Meeting from nobody:'')) = (th, l)"
  shows "Decode summary = Some (fst (splitCommand l), Fields (snd (splitCommand l)), targetOf th)"
  using assms by (simp add: Decode_def split: prod.split)

lemma processEvent_run:
  assumes "Data eventData = Some (ev # rest)"
    and "SUMMARY ev = Some summary"
    and "decide g summary (textOf (DESCRIPTION ev)) = Some (command, args)"
  shows "processEvent g env eventData w =
     (case UpdateEventWithOutput g (putSucceeds w) (ExecuteCommand g env command args)
             (Path eventData) (objects w) of
        Inl p \<Rightarrow> Inl (p, w\<lparr>executed := executed w @ [(command, args)]\<rparr>)
      | Inr st \<Rightarrow> Inr (w\<lparr>objects := st, executed := executed w @ [(command, args)]\<rparr>))"
  using assms by (simp add: processEvent_def)

lemma processEvent_executed:
  assumes "Data eventData = Some (ev # rest)"
    and "SUMMARY ev = Some summary"
    and "decide g summary (textOf (DESCRIPTION ev)) = Some (command, args)"
  shows "executed (worldOf (processEvent g env eventData w)) = executed w @ [(command, args)]"
  unfolding processEvent_run [OF assms] by (simp add: worldOf_def split: sum.split)

lemma processEvent_stored:
  assumes "Data eventData = Some (ev # rest)"
    and "SUMMARY ev = Some summary"
    and "decide g summary (textOf (DESCRIPTION ev)) = Some (command, args)"
    and "objects w (Path eventData) = Some obj"
    and "Data obj = Some (ev' # rest')"
    and "putSucceeds w (Path eventData)"
  shows "processEvent g env eventData w =
     Inr (w\<lparr>objects := (objects w)(Path eventData \<mapsto>
               obj\<lparr>Data := Some (ev'\<lparr>DESCRIPTION :=
                 Some (AppendBlock (textOf (DESCRIPTION ev')) (hostname g)
                        (ExecuteCommand g env command args))\<rparr> # rest')\<rparr>),
            executed := executed w @ [(command, args)]\<rparr>)"
  unfolding processEvent_run [OF assms(1-3)]
  using assms(4-6) by (simp add: UpdateEventWithOutput_def)

section \<open>The output codec\<close>

text \<open>
  C6. The description \<open>AppendBlock\<close> returns begins with the whole old description,
  unchanged, and continues with a blank line, the start marker of the host, the body as it
  is, and the end marker of the same host. The hosts read from the old description are
  read from the new one as well, first and in the same order.
\<close>

theorem AppendBlock_frame:
  "take (length description) (AppendBlock description host body) = description \<and>
   drop (length description) (AppendBlock description host body) =
     ''\<newline>\<newline>'' @ (''[OUTPUT-'' @ host @ '']'') @ ''\<newline>'' @ body @ ''\<newline>'' @ (''[/OUTPUT-'' @ host @ '']'') \<and>
   getExecutedHosts (AppendBlock description host body) =
     getExecutedHosts description @
     getExecutedHosts (''\<newline>'' @ (''[OUTPUT-'' @ host @ '']'') @ ''\<newline>'' @ body @ ''\<newline>'' @ (''[/OUTPUT-'' @ host @ '']''))"
proof -
  have "AppendBlock description host body =
      description @ CHR 0x0A # (''\<newline>'' @ (''[OUTPUT-'' @ host @ '']'') @ ''\<newline>'' @ body @ ''\<newline>'' @ (''[/OUTPUT-'' @ host @ '']''))"
    by (simp add: AppendBlock_def)
  then have "getExecutedHosts (AppendBlock description host body) =
     getExecutedHosts description @
     getExecutedHosts (''\<newline>'' @ (''[OUTPUT-'' @ host @ '']'') @ ''\<newline>'' @ body @ ''\<newline>'' @ (''[/OUTPUT-'' @ host @ '']''))"
    unfolding getExecutedHosts_def by (simp only: Split_append_sep hostsLoop_append)
  then show ?thesis by (simp add: AppendBlock_def)
qed

text \<open>
  Instances: a block for \<open>h1\<close> after the description \<open>old\<close>, and after a block of
  \<open>h0\<close>.
\<close>

theorem AppendBlock_frame_witness:
  "take (length ''old'') (AppendBlock ''old'' ''h1'' ''out'') = ''old'' \<and>
   drop (length ''old'') (AppendBlock ''old'' ''h1'' ''out'') =
     ''\<newline>\<newline>[OUTPUT-h1]\<newline>out\<newline>[/OUTPUT-h1]'' \<and>
   getExecutedHosts (AppendBlock ''\<newline>\<newline>[OUTPUT-h0]\<newline>x\<newline>[/OUTPUT-h0]'' ''h1'' ''out'') = [''h0'', ''h1'']"
proof -
  have a: "getExecutedHosts ''\<newline>\<newline>[OUTPUT-h0]\<newline>x\<newline>[/OUTPUT-h0]'' = [''h0'']" by code_simp
  have b: "getExecutedHosts (''\<newline>'' @ (''[OUTPUT-'' @ ''h1'' @ '']'') @ ''\<newline>'' @ ''out'' @ ''\<newline>'' @ (''[/OUTPUT-'' @ ''h1'' @ '']'')) = [''h1'']"
    by code_simp
  show ?thesis
    using AppendBlock_frame [of "''old''" "''h1''" "''out''"]
      AppendBlock_frame [of "''\<newline>\<newline>[OUTPUT-h0]\<newline>x\<newline>[/OUTPUT-h0]''" "''h1''" "''out''"]
    unfolding a b by simp
qed

text \<open>
  C9. \<open>getExecutedHosts\<close> lists a host exactly when a line of the description is the
  start marker of that host, whatever end markers there are, and lists the hosts in the
  order of their lines: a description cut at a line feed gives the hosts of the first part
  followed by those of the second, and a start marker alone gives its host. The status of
  the list operation is \<open>Pending\<close> exactly when no host is listed, and otherwise
  \<open>Executed (...)\<close> around the listed hosts joined by a comma and a space. For an entry
  whose summary carries the prefix, the row the list operation prints holds the identifier,
  the command and that status, computed from the unescaped description; for an entry
  without the prefix it prints no row.
\<close>

theorem getExecutedHosts_status:
  "(h \<in> set (getExecutedHosts d) \<longleftrightarrow> ''[OUTPUT-'' @ h @ '']'' \<in> set (Split d CHR 0x0A)) \<and>
   getExecutedHosts (a @ CHR 0x0A # b) = getExecutedHosts a @ getExecutedHosts b \<and>
   (CHR 0x0A \<notin> set h \<longrightarrow> getExecutedHosts (''[OUTPUT-'' @ h @ '']'') = [h]) \<and>
   (eventStatus raw = ''Pending'' \<longleftrightarrow> set (getExecutedHosts (unescapeNewlines raw)) = {}) \<and>
   (set (getExecutedHosts (unescapeNewlines raw)) \<noteq> {} \<longrightarrow>
      eventStatus raw = ''Executed ('' @ Join (getExecutedHosts (unescapeNewlines raw)) '', '' @ '')'') \<and>
   (Data eventData = Some (ev # rest) \<and> SUMMARY ev = Some summary \<and>
    DESCRIPTION ev = Some raw \<and> UID ev = Some uid \<and>
    HasPrefix summary ''Meeting from nobody:'' \<longrightarrow>
      listRow eventData =
        Inr (Some (uid, TrimPrefix summary ''Meeting from nobody: '',
          if getExecutedHosts (unescapeNewlines raw) = [] then ''Pending''
          else ''Executed ('' @ Join (getExecutedHosts (unescapeNewlines raw)) '', '' @ '')''))) \<and>
   (Data eventData = Some (ev # rest) \<and> SUMMARY ev = Some summary \<and>
    DESCRIPTION ev = Some raw \<and> UID ev = Some uid \<and>
    \<not> HasPrefix summary ''Meeting from nobody:'' \<longrightarrow> listRow eventData = Inr None)"
proof (intro conjI impI)
  show "h \<in> set (getExecutedHosts d) \<longleftrightarrow> ''[OUTPUT-'' @ h @ '']'' \<in> set (Split d CHR 0x0A)"
    unfolding getExecutedHosts_def by (rule set_hostsLoop)
  show "getExecutedHosts (a @ CHR 0x0A # b) = getExecutedHosts a @ getExecutedHosts b"
    unfolding getExecutedHosts_def Split_append_sep by (rule hostsLoop_append)
  show "getExecutedHosts (''[OUTPUT-'' @ h @ '']'') = [h]" if "CHR 0x0A \<notin> set h"
  proof -
    have "CHR 0x0A \<notin> set (''[OUTPUT-'' @ h @ '']'')" using that by simp
    then have "Split (''[OUTPUT-'' @ h @ '']'') CHR 0x0A = [''[OUTPUT-'' @ h @ '']'']"
      by (rule Split_no_sep)
    then show ?thesis unfolding getExecutedHosts_def using hostsLoop_Cons_marker [of h "[]"] by simp
  qed
  show "eventStatus raw = ''Pending'' \<longleftrightarrow> set (getExecutedHosts (unescapeNewlines raw)) = {}"
    unfolding eventStatus_def Let_def by simp
  show "eventStatus raw = ''Executed ('' @ Join (getExecutedHosts (unescapeNewlines raw)) '', '' @ '')''"
    if "set (getExecutedHosts (unescapeNewlines raw)) \<noteq> {}"
    using that unfolding eventStatus_def Let_def by simp
  show "listRow eventData =
        Inr (Some (uid, TrimPrefix summary ''Meeting from nobody: '',
          if getExecutedHosts (unescapeNewlines raw) = [] then ''Pending''
          else ''Executed ('' @ Join (getExecutedHosts (unescapeNewlines raw)) '', '' @ '')''))"
    if "Data eventData = Some (ev # rest) \<and> SUMMARY ev = Some summary \<and>
      DESCRIPTION ev = Some raw \<and> UID ev = Some uid \<and> HasPrefix summary ''Meeting from nobody:''"
    using that by (simp add: listRow_def eventStatus_def Let_def)
  show "listRow eventData = Inr None"
    if "Data eventData = Some (ev # rest) \<and> SUMMARY ev = Some summary \<and>
      DESCRIPTION ev = Some raw \<and> UID ev = Some uid \<and> \<not> HasPrefix summary ''Meeting from nobody:''"
    using that by (simp add: listRow_def)
qed

text \<open>
  Instances: a start marker without an end marker counts, an end marker alone does not,
  and two markers are reported in the order of the description; the rows printed for a
  fresh command, for a command two hosts have answered, and for an ordinary entry.
\<close>

theorem getExecutedHosts_status_witness:
  "''a'' \<in> set (getExecutedHosts ''[OUTPUT-a]\<newline>x'') \<and>
   getExecutedHosts (''[OUTPUT-b]'' @ CHR 0x0A # ''[OUTPUT-a]'') = [''b'', ''a''] \<and>
   eventStatus ''[/OUTPUT-a]'' = ''Pending'' \<and>
   eventStatus (''[OUTPUT-b]'' @ [CHR 0x5C, CHR ''n''] @ ''[OUTPUT-a]'') = ''Executed (b, a)'' \<and>
   listRow (exampleEntry ''Meeting from nobody: whoami'') = Inr (Some (''1'', ''whoami'', ''Pending'')) \<and>
   listRow \<lparr>Path = ''/cal/2.ics'',
            Data = Some [\<lparr>SUMMARY = Some ''Meeting from nobody: whoami'',
                          DESCRIPTION = Some (''[OUTPUT-b]'' @ [CHR 0x5C, CHR ''n''] @ ''[OUTPUT-a]''),
                          UID = Some ''2''\<rparr>]\<rparr> =
     Inr (Some (''2'', ''whoami'', ''Executed (b, a)'')) \<and>
   listRow (exampleEntry ''Team lunch'') = Inr None"
proof -
  have m: "''[OUTPUT-a]'' \<in> set (Split ''[OUTPUT-a]\<newline>x'' CHR 0x0A)" by simp
  have n: "CHR 0x0A \<notin> set ''a''" "CHR 0x0A \<notin> set ''b''" by simp_all
  have u: "unescapeNewlines (''[OUTPUT-b]'' @ [CHR 0x5C, CHR ''n''] @ ''[OUTPUT-a]'') =
      ''[OUTPUT-b]'' @ CHR 0x0A # ''[OUTPUT-a]''" by simp
  have e: "set (getExecutedHosts (unescapeNewlines ''[/OUTPUT-a]'')) = {}" by code_simp
  have e0: "getExecutedHosts (unescapeNewlines []) = []" by code_simp
  have pw: "HasPrefix ''Meeting from nobody: whoami'' ''Meeting from nobody:''"
    and pl: "\<not> HasPrefix ''Team lunch'' ''Meeting from nobody:''"
    and tw: "TrimPrefix ''Meeting from nobody: whoami'' ''Meeting from nobody: '' = ''whoami''"
    by code_simp+
  note t1 = getExecutedHosts_status [where h = "''a''" and d = "''[OUTPUT-a]\<newline>x''"
      and a = "''[OUTPUT-b]''" and b = "''[OUTPUT-a]''" and raw = "''[/OUTPUT-a]''"]
  note t2 = getExecutedHosts_status [where h = "''b''" and d = "[]"
      and a = "''[OUTPUT-b]''" and b = "''[OUTPUT-a]''"
      and raw = "''[OUTPUT-b]'' @ [CHR 0x5C, CHR ''n''] @ ''[OUTPUT-a]''"
      and eventData = "\<lparr>Path = ''/cal/2.ics'',
            Data = Some [\<lparr>SUMMARY = Some ''Meeting from nobody: whoami'',
                          DESCRIPTION = Some (''[OUTPUT-b]'' @ [CHR 0x5C, CHR ''n''] @ ''[OUTPUT-a]''),
                          UID = Some ''2''\<rparr>]\<rparr>"
      and ev = "\<lparr>SUMMARY = Some ''Meeting from nobody: whoami'',
                          DESCRIPTION = Some (''[OUTPUT-b]'' @ [CHR 0x5C, CHR ''n''] @ ''[OUTPUT-a]''),
                          UID = Some ''2''\<rparr>"
      and rest = "[]" and summary = "''Meeting from nobody: whoami''" and uid = "''2''"]
  note t3 = getExecutedHosts_status [where raw = "[]"
      and eventData = "exampleEntry ''Meeting from nobody: whoami''"
      and ev = "\<lparr>SUMMARY = Some ''Meeting from nobody: whoami'', DESCRIPTION = Some [], UID = Some ''1''\<rparr>"
      and rest = "[]" and summary = "''Meeting from nobody: whoami''" and uid = "''1''"]
  note t4 = getExecutedHosts_status [where raw = "[]"
      and eventData = "exampleEntry ''Team lunch''"
      and ev = "\<lparr>SUMMARY = Some ''Team lunch'', DESCRIPTION = Some [], UID = Some ''1''\<rparr>"
      and rest = "[]" and summary = "''Team lunch''" and uid = "''1''"]
  have ba: "getExecutedHosts (''[OUTPUT-b]'' @ CHR 0x0A # ''[OUTPUT-a]'') = [''b'', ''a'']"
    using t1 t2 n by simp
  have c1: "''a'' \<in> set (getExecutedHosts ''[OUTPUT-a]\<newline>x'')" using t1 m by simp
  have c3: "eventStatus ''[/OUTPUT-a]'' = ''Pending''" using t1 e by blast
  have c4: "eventStatus (''[OUTPUT-b]'' @ [CHR 0x5C, CHR ''n''] @ ''[OUTPUT-a]'') = ''Executed (b, a)''"
    using t2 unfolding u ba by simp
  have c5: "listRow (exampleEntry ''Meeting from nobody: whoami'') = Inr (Some (''1'', ''whoami'', ''Pending''))"
    using t3 pw unfolding e0 tw by (simp add: exampleEntry_def)
  have c6: "listRow \<lparr>Path = ''/cal/2.ics'',
            Data = Some [\<lparr>SUMMARY = Some ''Meeting from nobody: whoami'',
                          DESCRIPTION = Some (''[OUTPUT-b]'' @ [CHR 0x5C, CHR ''n''] @ ''[OUTPUT-a]''),
                          UID = Some ''2''\<rparr>]\<rparr> =
     Inr (Some (''2'', ''whoami'', ''Executed (b, a)''))"
    using t2 pw unfolding u ba tw by simp
  have c7: "listRow (exampleEntry ''Team lunch'') = Inr None"
    using t4 pl by (simp add: exampleEntry_def)
  show ?thesis using c1 ba c3 c4 c5 c6 c7 by blast
qed

text \<open>
  C2 (amended). \<open>extractHostOutputs\<close> is the two-state machine \<open>machineRun\<close>: a line whose
  trimmed text begins with the start tag enters capturing for the host it names and resets
  the body; a line whose trimmed text begins with the end tag, whatever host it names,
  leaves capturing and commits the body under the capturing host unless that host is empty;
  any other line of a capture is taken as it is, the body being the taken lines joined by
  line feeds with the empty lines in front dropped; an end tag outside a capture changes
  nothing.
\<close>

theorem extractHostOutputs_machine: "extractHostOutputs description = machineRun description"
proof -
  have "simulates scanInit (Map.empty, Idle)"
    by (simp add: simulates_def scanInit_def)
  then have "simulates (foldl scanLine scanInit (Split description CHR 0x0A))
     (foldl machineStep (Map.empty, Idle) (Split description CHR 0x0A))"
    by (rule simulates_foldl)
  then show ?thesis
    by (simp add: simulates_def extractHostOutputs_def machineRun_def)
qed

text \<open>
  An instance: the second of two appended blocks is read back by the loop and by the
  machine alike.
\<close>

theorem extractHostOutputs_machine_witness:
  "extractHostOutputs (AppendBlock (AppendBlock [] ''alpha'' ''one'') ''beta'' ''two'') ''beta'' = Some ''two'' \<and>
   machineRun (AppendBlock (AppendBlock [] ''alpha'' ''one'') ''beta'' ''two'') ''beta'' = Some ''two''"
proof -
  have run: "machineRun (AppendBlock (AppendBlock [] ''alpha'' ''one'') ''beta'' ''two'') ''beta'' = Some ''two''"
    by code_simp
  show ?thesis
    unfolding extractHostOutputs_machine [of "AppendBlock (AppendBlock [] ''alpha'' ''one'') ''beta'' ''two''"]
    using run by simp
qed

text \<open>
  The scan against the machine of the specification's words: an end marker of host
  \<open>b\<close> commits the capture of host \<open>a\<close>; an empty line in front of the body is lost; a
  capture for the empty host name is never committed.
\<close>

theorem extractHostOutputs_counterexample:
  "extractHostOutputs ''[OUTPUT-a]\<newline>x\<newline>[/OUTPUT-b]'' ''a'' = Some ''x'' \<and>
   specExtractAll ''[OUTPUT-a]\<newline>x\<newline>[/OUTPUT-b]'' ''a'' = None \<and>
   extractHostOutputs ''[OUTPUT-a]\<newline>\<newline>x\<newline>[/OUTPUT-a]'' ''a'' = Some ''x'' \<and>
   specExtractAll ''[OUTPUT-a]\<newline>\<newline>x\<newline>[/OUTPUT-a]'' ''a'' = Some ''\<newline>x'' \<and>
   extractHostOutputs ''[OUTPUT-]\<newline>x\<newline>[/OUTPUT-]'' [] = None \<and>
   specExtractAll ''[OUTPUT-]\<newline>x\<newline>[/OUTPUT-]'' [] = Some ''x''"
  by code_simp

section \<open>The command codec\<close>

text \<open>
  C1 (amended). When the command and every argument are non-empty and free of white space,
  a broadcast command does not begin with \<open>@\<close> unless the line has no colon, and a host
  name is non-empty, is not \<open>*\<close> and has no colon, decoding the encoded summary gives
  back the command, the arguments and the target.
\<close>

theorem Decode_Encode:
  assumes tokens: "\<forall>w\<in>set (command # args). w \<noteq> [] \<and> (\<forall>c\<in>set w. \<not> isSpace c)"
    and target: "case t of
         Broadcast \<Rightarrow> \<not> HasPrefix command ''@'' \<or> CHR '':'' \<notin> set (Join (command # args) '' '')
       | Wildcard \<Rightarrow> True
       | Host h \<Rightarrow> h \<noteq> [] \<and> h \<noteq> ''*'' \<and> CHR '':'' \<notin> set h"
  shows "Decode (Encode command args t) = Some (command, args, t)"
proof -
  let ?l = "Join (command # args) '' ''"
  have fl: "Fields ?l = command # args" using tokens by (rule Fields_Join)
  have fa: "Fields (Join args '' '') = args" using tokens by (intro Fields_Join) simp
  have ne: "?l \<noteq> []" using tokens by (intro Join_nonempty) auto
  have hdl: "hd ?l = hd command" using tokens by (simp add: hd_Join)
  have lastl: "last ?l = last (last (command # args))"
    using tokens by (intro last_Join) auto
  have "last (command # args) \<in> set (command # args)" by (rule last_in_set) simp
  with tokens have "last (command # args) \<noteq> []"
    and "\<forall>c\<in>set (last (command # args)). \<not> isSpace c" by blast+
  then have ls: "\<not> isSpace (last ?l)" unfolding lastl by (meson last_in_set)
  have "hd command \<in> set command" using tokens by simp
  with tokens have hs: "\<not> isSpace (hd ?l)" unfolding hdl by simp
  have enc: "Encode command args t = ''Meeting from nobody: '' @ (annotation t @ ?l)"
    by (simp add: Encode_def CreateCommand_def textOf_def)
  have at: "\<not> isSpace CHR ''@''" by (simp add: isSpace_def)
  show ?thesis
  proof (cases t)
    case Broadcast
    have hp: "HasPrefix ?l ''@'' \<longleftrightarrow> HasPrefix command ''@''"
      using ne hdl tokens by (cases ?l; cases command) (auto simp: HasPrefix_def)
    have pt: "parseTarget ?l = ([], ?l)"
      using target Broadcast hp parseTarget_plain [of ?l] parseTarget_no_colon [of ?l] by auto
    show ?thesis
      unfolding enc using Decode_line [OF _ _ _ pt fl] ne hs ls Broadcast
      by (simp add: annotation_def fa targetOf_def)
  next
    case Wildcard
    have pt: "parseTarget (''@'' @ ''*'' @ '':'' @ ?l) = (''*'', ?l)"
      by (rule parseTarget_annotated) simp
    have "Decode (''Meeting from nobody: '' @ (''@'' @ ''*'' @ '':'' @ ?l)) =
        Some (command, Fields (Join args '' ''), targetOf ''*'')"
      using ne ls at by (intro Decode_line [OF _ _ _ pt fl]) simp_all
    then show ?thesis
      unfolding enc using Wildcard by (simp add: annotation_def fa targetOf_def)
  next
    case (Host h)
    with target have h: "h \<noteq> []" "h \<noteq> ''*''" "CHR '':'' \<notin> set h" by simp_all
    have pt: "parseTarget (''@'' @ h @ '':'' @ ?l) = (h, ?l)"
      using h(3) by (rule parseTarget_annotated)
    have "Decode (''Meeting from nobody: '' @ (''@'' @ h @ '':'' @ ?l)) =
        Some (command, Fields (Join args '' ''), targetOf h)"
      using ne ls at by (intro Decode_line [OF _ _ _ pt fl]) simp_all
    then show ?thesis
      unfolding enc using Host h by (simp add: annotation_def fa targetOf_def)
  qed
qed

text \<open>
  An instance: a command with two arguments for the host \<open>x\<close>.
\<close>

theorem Decode_Encode_witness:
  "Decode (Encode ''ls'' [''-l'', ''/tmp''] (Host ''x'')) = Some (''ls'', [''-l'', ''/tmp''], Host ''x'')"
  using Decode_Encode [of "''ls''" "[''-l'', ''/tmp'']" "Host ''x''"]
  by (simp add: isSpace_def)

text \<open>
  The round trip without those conditions: a broadcast command that begins with \<open>@\<close>
  and holds a colon comes back targeted at a host; a command or an argument with a blank in
  it comes back split.
\<close>

theorem Decode_Encode_counterexample:
  "Decode (Encode ''@a:b'' [] Broadcast) = Some (''b'', [], Host ''a'') \<and>
   Decode (Encode ''@a:b'' [] Broadcast) \<noteq> Some (''@a:b'', [], Broadcast) \<and>
   Decode (Encode ''echo hi'' [] Broadcast) = Some (''echo'', [''hi''], Broadcast) \<and>
   Decode (Encode ''echo hi'' [] Broadcast) \<noteq> Some (''echo hi'', [], Broadcast) \<and>
   Decode (Encode ''ls'' [''a b''] (Host ''x'')) = Some (''ls'', [''a'', ''b''], Host ''x'') \<and>
   Decode (Encode ''ls'' [''a b''] (Host ''x'')) \<noteq> Some (''ls'', [''a b''], Host ''x'')"
  by code_simp

text \<open>
  C7. When the summary carries the prefix and the trimmed remainder \<open>r\<close> begins with
  \<open>@\<close> and holds no colon, the guest takes no target and the whole of \<open>r\<close> as the
  command text: the decoded target is the broadcast, the command is the first word of
  \<open>r\<close> with its \<open>@\<close>, every host passes the target test, and every host that has no block
  in the description yet executes the words of \<open>r\<close>: processing the entry calls
  \<open>ExecuteCommand\<close> on them once, whatever the store does afterwards, and when the store
  holds the entry and accepts the put, the output is appended to the stored description as
  the block of that host.
\<close>

theorem Decode_malformed_annotation:
  assumes "HasPrefix summary ''Meeting from nobody:''"
    and "r = TrimSpace (TrimPrefix summary ''Meeting from nobody:'')"
    and "HasPrefix r ''@''"
    and "CHR '':'' \<notin> set r"
  shows "parseTarget r = ([], r) \<and>
    Decode summary = Some (fst (splitCommand r), Fields (snd (splitCommand r)), Broadcast) \<and>
    fst (splitCommand r) = takeWhile (\<lambda>c. \<not> isSpace c) r \<and>
    ShouldExecute (fst (parseTarget r)) h \<and>
    decide (NewGuest h) summary description =
      (if HasBlock description h then None else Some (splitCommand r)) \<and>
    (Data eventData = Some (ev # rest) \<and> SUMMARY ev = Some summary \<and>
     \<not> HasBlock (textOf (DESCRIPTION ev)) h \<longrightarrow>
       executed (worldOf (processEvent (NewGuest h) env eventData w)) =
         executed w @ [splitCommand r]) \<and>
    (Data eventData = Some (ev # rest) \<and> SUMMARY ev = Some summary \<and>
     \<not> HasBlock (textOf (DESCRIPTION ev)) h \<and>
     objects w (Path eventData) = Some obj \<and> Data obj = Some (ev' # rest') \<and>
     putSucceeds w (Path eventData) \<longrightarrow>
       processEvent (NewGuest h) env eventData w =
         Inr (w\<lparr>objects := (objects w)(Path eventData \<mapsto>
                   obj\<lparr>Data := Some (ev'\<lparr>DESCRIPTION :=
                     Some (AppendBlock (textOf (DESCRIPTION ev')) h
                            (ExecuteCommand (NewGuest h) env
                               (fst (splitCommand r)) (snd (splitCommand r))))\<rparr> # rest')\<rparr>),
                executed := executed w @ [splitCommand r]\<rparr>))"
proof -
  have pt: "parseTarget r = ([], r)" using assms(4) by (rule parseTarget_no_colon)
  have se: "ShouldExecute [] h" by (simp add: ShouldExecute_def)
  from assms(3) obtain r' where r': "r = CHR ''@'' # r'" unfolding HasPrefix_iff by auto
  have at: "\<not> isSpace CHR ''@''" by (simp add: isSpace_def)
  have "Fields r = fieldsFrom ''@'' r'" unfolding r' Fields_def using at by simp
  also have "\<dots> = (''@'' @ takeWhile (\<lambda>c. \<not> isSpace c) r') #
      fieldsFrom [] (dropWhile (\<lambda>c. \<not> isSpace c) r')"
    by (rule fieldsFrom_first) simp
  finally have "hd (Fields r) = takeWhile (\<lambda>c. \<not> isSpace c) r" "Fields r \<noteq> []"
    unfolding r' using at by simp_all
  then have cmd: "fst (splitCommand r) = takeWhile (\<lambda>c. \<not> isSpace c) r"
    by (simp add: splitCommand_def Let_def)
  have dec: "Decode summary = Some (fst (splitCommand r), Fields (snd (splitCommand r)), targetOf [])"
    using assms(1) pt unfolding assms(2) by (rule Decode_run)
  have dd: "decide (NewGuest h) summary d =
     (if HasBlock d h then None
      else if ShouldExecute [] h then Some (splitCommand r) else None)" for d
    using assms(1) pt unfolding assms(2) by (rule decide_run)
  have run: "decide (NewGuest h) summary (textOf (DESCRIPTION ev)) =
      Some (fst (splitCommand r), snd (splitCommand r))"
    if "\<not> HasBlock (textOf (DESCRIPTION ev)) h"
    using that se by (simp add: dd)
  have ex: "executed (worldOf (processEvent (NewGuest h) env eventData w)) =
         executed w @ [splitCommand r]"
    if "Data eventData = Some (ev # rest)" "SUMMARY ev = Some summary"
      "\<not> HasBlock (textOf (DESCRIPTION ev)) h"
    using processEvent_executed [OF that(1) that(2) run [OF that(3)], of env w] by simp
  have st: "processEvent (NewGuest h) env eventData w =
         Inr (w\<lparr>objects := (objects w)(Path eventData \<mapsto>
                   obj\<lparr>Data := Some (ev'\<lparr>DESCRIPTION :=
                     Some (AppendBlock (textOf (DESCRIPTION ev')) h
                            (ExecuteCommand (NewGuest h) env
                               (fst (splitCommand r)) (snd (splitCommand r))))\<rparr> # rest')\<rparr>),
                executed := executed w @ [splitCommand r]\<rparr>)"
    if "Data eventData = Some (ev # rest)" "SUMMARY ev = Some summary"
      "\<not> HasBlock (textOf (DESCRIPTION ev)) h"
      "objects w (Path eventData) = Some obj" "Data obj = Some (ev' # rest')"
      "putSucceeds w (Path eventData)"
    using processEvent_stored [OF that(1) that(2) run [OF that(3)] that(4) that(5) that(6), of env]
    by (simp add: NewGuest_def)
  show ?thesis using pt se cmd dec dd [of description] ex st by (simp add: targetOf_def)
qed

text \<open>
  An instance: \<open>@web01 uptime\<close>, with the colon forgotten, runs on the host \<open>db02\<close>,
  which writes its block into the entry.
\<close>

theorem Decode_malformed_annotation_witness:
  "Decode ''Meeting from nobody: @web01 uptime'' = Some (''@web01'', [''uptime''], Broadcast) \<and>
   decide (NewGuest ''db02'') ''Meeting from nobody: @web01 uptime'' [] = Some (''@web01'', ''uptime'') \<and>
   executed (worldOf (processEvent (NewGuest ''db02'') exampleEnv
      (exampleEntry ''Meeting from nobody: @web01 uptime'')
      (exampleWorld ''Meeting from nobody: @web01 uptime''))) = [(''@web01'', ''uptime'')] \<and>
   map_option Data (objects (worldOf (processEvent (NewGuest ''db02'') exampleEnv
      (exampleEntry ''Meeting from nobody: @web01 uptime'')
      (exampleWorld ''Meeting from nobody: @web01 uptime''))) ''/cal/1.ics'') =
     Some (Some [\<lparr>SUMMARY = Some ''Meeting from nobody: @web01 uptime'',
       DESCRIPTION = Some ''\<newline>\<newline>[OUTPUT-db02]\<newline>[Host: db02]\<newline>ran @web01 uptime\<newline>[/OUTPUT-db02]'',
       UID = Some ''1''\<rparr>])"
proof -
  have r: "''@web01 uptime'' = TrimSpace (TrimPrefix ''Meeting from nobody: @web01 uptime'' ''Meeting from nobody:'')"
    by code_simp
  have s: "splitCommand ''@web01 uptime'' = (''@web01'', ''uptime'')" by code_simp
  have f: "Fields ''uptime'' = [''uptime'']" by code_simp
  have nb: "\<not> HasBlock [] ''db02''" by code_simp
  have p: "HasPrefix ''Meeting from nobody: @web01 uptime'' ''Meeting from nobody:''"
    "HasPrefix ''@web01 uptime'' ''@''" "CHR '':'' \<notin> set ''@web01 uptime''"
    by (simp_all add: HasPrefix_def)
  have x: "ExecuteCommand (NewGuest ''db02'') exampleEnv ''@web01'' ''uptime'' =
      ''[Host: db02]\<newline>ran @web01 uptime''" by code_simp
  have a: "AppendBlock [] ''db02'' ''[Host: db02]\<newline>ran @web01 uptime'' =
      ''\<newline>\<newline>[OUTPUT-db02]\<newline>[Host: db02]\<newline>ran @web01 uptime\<newline>[/OUTPUT-db02]''"
    by code_simp
  note t = Decode_malformed_annotation [OF p(1) r p(2) p(3),
      where h = "''db02''" and description = "[]"
        and eventData = "exampleEntry ''Meeting from nobody: @web01 uptime''"
        and ev = "\<lparr>SUMMARY = Some ''Meeting from nobody: @web01 uptime'', DESCRIPTION = Some [], UID = Some ''1''\<rparr>"
        and rest = "[]" and env = exampleEnv
        and w = "exampleWorld ''Meeting from nobody: @web01 uptime''"
        and obj = "exampleEntry ''Meeting from nobody: @web01 uptime''"
        and ev' = "\<lparr>SUMMARY = Some ''Meeting from nobody: @web01 uptime'', DESCRIPTION = Some [], UID = Some ''1''\<rparr>"
        and rest' = "[]"]
  show ?thesis
    using t nb unfolding s
    by (simp add: f x a exampleEntry_def exampleWorld_def textOf_def worldOf_def)
qed

text \<open>
  C10. A summary whose annotation names no host, the prefix followed by white space (or
  none), \<open>@:\<close> and a text, is read as a broadcast of that text: the target is empty, it
  passes the target test on every host, and every host that has no block in the description
  yet executes the words after the colon: processing the entry calls \<open>ExecuteCommand\<close> on
  them once, whatever the store does afterwards, and when the store holds the entry and
  accepts the put, the output is appended to the stored description as the block of that
  host.
\<close>

theorem empty_target_is_broadcast:
  assumes "\<forall>c\<in>set ws. isSpace c"
  shows "parseTarget (''@:'' @ c) = ([], c) \<and>
   Decode (''Meeting from nobody:'' @ ws @ ''@:'' @ c) =
     Some (fst (splitCommand c), Fields (snd (splitCommand c)), Broadcast) \<and>
   ShouldExecute (fst (parseTarget (''@:'' @ c))) h \<and>
   decide (NewGuest h) (''Meeting from nobody:'' @ ws @ ''@:'' @ c) description =
     (if HasBlock description h then None else Some (splitCommand c)) \<and>
   (Data eventData = Some (ev # rest) \<and>
    SUMMARY ev = Some (''Meeting from nobody:'' @ ws @ ''@:'' @ c) \<and>
    \<not> HasBlock (textOf (DESCRIPTION ev)) h \<longrightarrow>
      executed (worldOf (processEvent (NewGuest h) env eventData w)) =
        executed w @ [splitCommand c]) \<and>
   (Data eventData = Some (ev # rest) \<and>
    SUMMARY ev = Some (''Meeting from nobody:'' @ ws @ ''@:'' @ c) \<and>
    \<not> HasBlock (textOf (DESCRIPTION ev)) h \<and>
    objects w (Path eventData) = Some obj \<and> Data obj = Some (ev' # rest') \<and>
    putSucceeds w (Path eventData) \<longrightarrow>
      processEvent (NewGuest h) env eventData w =
        Inr (w\<lparr>objects := (objects w)(Path eventData \<mapsto>
                  obj\<lparr>Data := Some (ev'\<lparr>DESCRIPTION :=
                    Some (AppendBlock (textOf (DESCRIPTION ev')) h
                           (ExecuteCommand (NewGuest h) env
                              (fst (splitCommand c)) (snd (splitCommand c))))\<rparr> # rest')\<rparr>),
               executed := executed w @ [splitCommand c]\<rparr>))"
proof -
  let ?c' = "rev (dropWhile isSpace (rev c))"
  let ?s = "''Meeting from nobody:'' @ ws @ ''@:'' @ c"
  have pt: "parseTarget (''@'' @ [] @ '':'' @ x) = ([], x)" for x
    by (rule parseTarget_annotated) simp
  have pre: "HasPrefix ?s ''Meeting from nobody:''"
    by (rule HasPrefix_append)
  have tp: "TrimPrefix ?s ''Meeting from nobody:'' = ws @ ''@:'' @ c"
    by (rule TrimPrefix_append)
  have at: "\<not> isSpace CHR ''@''" and colon: "\<not> isSpace CHR '':''" by (simp_all add: isSpace_def)
  have "dropWhile isSpace (ws @ CHR ''@'' # CHR '':'' # c) = CHR ''@'' # CHR '':'' # c"
    using assms at by (rule dropWhile_all)
  then have "TrimSpace (ws @ ''@:'' @ c) = rev (dropWhile isSpace (rev (''@'' @ CHR '':'' # c)))"
    by (simp add: TrimSpace_def)
  also have "\<dots> = ''@'' @ CHR '':'' # ?c'"
    using colon by (rule trimRight_keep)
  finally have ts: "TrimSpace (ws @ ''@:'' @ c) = ''@:'' @ ?c'" by simp
  have pt': "parseTarget (TrimSpace (TrimPrefix ?s ''Meeting from nobody:'')) = ([], ?c')"
    unfolding tp ts using pt [of ?c'] by simp
  have sc: "splitCommand ?c' = splitCommand c"
    by (rule splitCommand_cong) (rule Fields_trimRight)
  have se: "ShouldExecute [] h" by (simp add: ShouldExecute_def)
  have dd: "decide (NewGuest h) ?s d = (if HasBlock d h then None else Some (splitCommand c))" for d
    using decide_run [OF pre pt', of h d] se unfolding sc by simp
  have run: "decide (NewGuest h) ?s (textOf (DESCRIPTION ev)) =
      Some (fst (splitCommand c), snd (splitCommand c))"
    if "\<not> HasBlock (textOf (DESCRIPTION ev)) h"
    using that dd [of "textOf (DESCRIPTION ev)"] by simp
  have ex: "executed (worldOf (processEvent (NewGuest h) env eventData w)) =
        executed w @ [splitCommand c]"
    if "Data eventData = Some (ev # rest)" "SUMMARY ev = Some ?s"
      "\<not> HasBlock (textOf (DESCRIPTION ev)) h"
    using processEvent_executed [OF that(1) that(2) run [OF that(3)], of env w] by simp
  have st: "processEvent (NewGuest h) env eventData w =
        Inr (w\<lparr>objects := (objects w)(Path eventData \<mapsto>
                  obj\<lparr>Data := Some (ev'\<lparr>DESCRIPTION :=
                    Some (AppendBlock (textOf (DESCRIPTION ev')) h
                           (ExecuteCommand (NewGuest h) env
                              (fst (splitCommand c)) (snd (splitCommand c))))\<rparr> # rest')\<rparr>),
               executed := executed w @ [splitCommand c]\<rparr>)"
    if "Data eventData = Some (ev # rest)" "SUMMARY ev = Some ?s"
      "\<not> HasBlock (textOf (DESCRIPTION ev)) h"
      "objects w (Path eventData) = Some obj" "Data obj = Some (ev' # rest')"
      "putSucceeds w (Path eventData)"
    using processEvent_stored [OF that(1) that(2) run [OF that(3)] that(4) that(5) that(6), of env]
    by (simp add: NewGuest_def)
  have dec: "Decode ?s = Some (fst (splitCommand c), Fields (snd (splitCommand c)), Broadcast)"
    using Decode_run [OF pre pt'] unfolding sc by (simp add: targetOf_def)
  have p0: "parseTarget (''@:'' @ c) = ([], c)" using pt [of c] by simp
  have se': "ShouldExecute (fst (parseTarget (''@:'' @ c))) h" unfolding p0 using se by simp
  show ?thesis
    using p0 dec se' dd [of description] ex st
    by (intro conjI impI) (simp_all del: append.simps)
qed

text \<open>
  An instance: \<open>@:cmd\<close> runs on the hosts \<open>h1\<close> and \<open>h2\<close>, and \<open>h2\<close> writes its block
  into the entry.
\<close>

theorem empty_target_is_broadcast_witness:
  "decide (NewGuest ''h1'') ''Meeting from nobody: @:cmd'' [] = Some (''cmd'', []) \<and>
   decide (NewGuest ''h2'') ''Meeting from nobody: @:cmd'' [] = Some (''cmd'', []) \<and>
   executed (worldOf (processEvent (NewGuest ''h2'') exampleEnv
      (exampleEntry ''Meeting from nobody: @:cmd'')
      (exampleWorld ''Meeting from nobody: @:cmd''))) = [(''cmd'', [])] \<and>
   map_option Data (objects (worldOf (processEvent (NewGuest ''h2'') exampleEnv
      (exampleEntry ''Meeting from nobody: @:cmd'')
      (exampleWorld ''Meeting from nobody: @:cmd''))) ''/cal/1.ics'') =
     Some (Some [\<lparr>SUMMARY = Some ''Meeting from nobody: @:cmd'',
       DESCRIPTION = Some ''\<newline>\<newline>[OUTPUT-h2]\<newline>[Host: h2]\<newline>ran cmd \<newline>[/OUTPUT-h2]'',
       UID = Some ''1''\<rparr>])"
proof -
  have s: "splitCommand ''cmd'' = (''cmd'', [])" by code_simp
  have nb: "\<not> HasBlock [] ''h1''" "\<not> HasBlock [] ''h2''" by code_simp+
  have ws: "\<forall>c\<in>set '' ''. isSpace c" by simp
  have x: "ExecuteCommand (NewGuest ''h2'') exampleEnv ''cmd'' [] = ''[Host: h2]\<newline>ran cmd ''"
    by code_simp
  have a: "AppendBlock [] ''h2'' ''[Host: h2]\<newline>ran cmd '' =
      ''\<newline>\<newline>[OUTPUT-h2]\<newline>[Host: h2]\<newline>ran cmd \<newline>[/OUTPUT-h2]''"
    by code_simp
  note t1 = empty_target_is_broadcast [OF ws, where c = "''cmd''" and h = "''h1''" and description = "[]"]
  note t2 = empty_target_is_broadcast [OF ws, where c = "''cmd''" and h = "''h2''" and description = "[]"
        and eventData = "exampleEntry ''Meeting from nobody: @:cmd''"
        and ev = "\<lparr>SUMMARY = Some ''Meeting from nobody: @:cmd'', DESCRIPTION = Some [], UID = Some ''1''\<rparr>"
        and rest = "[]" and env = exampleEnv
        and w = "exampleWorld ''Meeting from nobody: @:cmd''"
        and obj = "exampleEntry ''Meeting from nobody: @:cmd''"
        and ev' = "\<lparr>SUMMARY = Some ''Meeting from nobody: @:cmd'', DESCRIPTION = Some [], UID = Some ''1''\<rparr>"
        and rest' = "[]"]
  have d1: "decide (NewGuest ''h1'') ''Meeting from nobody: @:cmd'' [] = Some (''cmd'', [])"
    using t1 nb unfolding s by simp
  show ?thesis
    using d1 t2 nb unfolding s
    by (simp add: x a exampleEntry_def exampleWorld_def textOf_def worldOf_def)
qed

section \<open>The targeting test\<close>

text \<open>
  C5. A target read as broadcast or wildcard passes the test on every host; a target read
  as the host \<open>name\<close> passes exactly on the host whose name is the same string, so
  \<open>alpha\<close> passes neither on \<open>beta\<close> nor on \<open>Alpha\<close>.
\<close>

theorem ShouldExecute_target:
  "(targetOf t = Broadcast \<or> targetOf t = Wildcard \<longrightarrow> ShouldExecute t localHost) \<and>
   (targetOf t = Host name \<longrightarrow> (ShouldExecute t localHost \<longleftrightarrow> name = localHost)) \<and>
   \<not> ShouldExecute ''alpha'' ''beta'' \<and> \<not> ShouldExecute ''alpha'' ''Alpha''"
  by (auto simp: targetOf_def ShouldExecute_def split: if_splits)

text \<open>
  Instances of the three kinds of target.
\<close>

theorem ShouldExecute_target_witness:
  "targetOf ''alpha'' = Host ''alpha'' \<and> ShouldExecute ''alpha'' ''alpha'' \<and>
   targetOf ''*'' = Wildcard \<and> ShouldExecute ''*'' ''beta'' \<and>
   targetOf [] = Broadcast \<and> ShouldExecute [] ''beta''"
  using ShouldExecute_target [of "''alpha''" "''alpha''" "''alpha''"]
    ShouldExecute_target [of "''*''" "''beta''"] ShouldExecute_target [of "[]" "''beta''"]
  by (simp add: targetOf_def)

section \<open>The dispatcher\<close>

text \<open>
  C4. The guest's test for its block holds exactly when the start marker of its host
  occurs somewhere in the description, whatever surrounds it. When it holds, the entry is
  skipped whatever its summary, and processing it returns the world as it was: nothing is
  executed and no description changes.
\<close>

theorem processEvent_idempotent:
  assumes "Data eventData = Some (ev # rest)"
  shows "(HasBlock (textOf (DESCRIPTION ev)) (hostname g) \<longleftrightarrow>
           (\<exists>a b. textOf (DESCRIPTION ev) = a @ (''[OUTPUT-'' @ hostname g @ '']'') @ b)) \<and>
         (HasBlock (textOf (DESCRIPTION ev)) (hostname g) \<longrightarrow>
            decide g summary (textOf (DESCRIPTION ev)) = None \<and>
            processEvent g env eventData w = Inr w)"
proof (intro conjI impI)
  show "HasBlock (textOf (DESCRIPTION ev)) (hostname g) \<longleftrightarrow>
           (\<exists>a b. textOf (DESCRIPTION ev) = a @ (''[OUTPUT-'' @ hostname g @ '']'') @ b)"
    unfolding HasBlock_def by (rule Contains_iff)
next
  assume hb: "HasBlock (textOf (DESCRIPTION ev)) (hostname g)"
  then have d: "decide g s (textOf (DESCRIPTION ev)) = None" for s
    by (simp add: decide_def)
  show "decide g summary (textOf (DESCRIPTION ev)) = None" by (rule d)
  show "processEvent g env eventData w = Inr w"
    unfolding processEvent_def using assms d by (simp split: option.split)
qed

text \<open>
  An instance: the description holds a start marker of \<open>h1\<close> and no end marker.
\<close>

theorem processEvent_idempotent_witness:
  "processEvent (NewGuest ''h1'') exampleEnv
     \<lparr>Path = ''/cal/1.ics'',
      Data = Some [\<lparr>SUMMARY = Some ''Meeting from nobody: whoami'',
                    DESCRIPTION = Some ''\<newline>\<newline>[OUTPUT-h1]\<newline>[Host: h1]\<newline>root'',
                    UID = Some ''1''\<rparr>]\<rparr>
     \<lparr>objects = Map.empty, putSucceeds = (\<lambda>_. True), executed = []\<rparr>
   = Inr \<lparr>objects = Map.empty, putSucceeds = (\<lambda>_. True), executed = []\<rparr>"
proof -
  have hb: "HasBlock ''\<newline>\<newline>[OUTPUT-h1]\<newline>[Host: h1]\<newline>root'' ''h1''" by code_simp
  show ?thesis
    using hb processEvent_idempotent [of
      "\<lparr>Path = ''/cal/1.ics'',
      Data = Some [\<lparr>SUMMARY = Some ''Meeting from nobody: whoami'',
                    DESCRIPTION = Some ''\<newline>\<newline>[OUTPUT-h1]\<newline>[Host: h1]\<newline>root'',
                    UID = Some ''1''\<rparr>]\<rparr>"
      "\<lparr>SUMMARY = Some ''Meeting from nobody: whoami'',
                    DESCRIPTION = Some ''\<newline>\<newline>[OUTPUT-h1]\<newline>[Host: h1]\<newline>root'',
                    UID = Some ''1''\<rparr>"
      "[]" "NewGuest ''h1''" "[]" exampleEnv
      "\<lparr>objects = Map.empty, putSucceeds = (\<lambda>_. True), executed = []\<rparr>"]
    by (simp add: textOf_def NewGuest_def)
qed

text \<open>
  C8 (amended). For the command \<open>upload\<close> followed by the arguments \<open>as\<close>, the guest
  reads the file named by all the arguments joined by single blanks, which is the first
  argument when there is one argument only. It returns, after the host line, the file name
  and the base64 text of the content between a \<open>[DATA]\<close> and a \<open>[/DATA]\<close> line, or, when
  the read fails, the error text as its ordinary output.
\<close>

theorem upload_reads_joined_arguments:
  assumes "Fields actualCmd = ''upload'' # as"
  shows "(case splitCommand actualCmd of (command, args) \<Rightarrow> ExecuteCommand g env command args) =
     (case ReadFile env (Join as '' '') of
        Inl err \<Rightarrow> ''[Host: '' @ hostname g @ '']\<newline>'' @ ''Error: '' @ err
      | Inr data \<Rightarrow>
          ''[Host: '' @ hostname g @ '']\<newline>'' @ ''File: '' @ Join as '' '' @
          ''\<newline>[DATA]\<newline>'' @ EncodeToString data @ ''\<newline>[/DATA]'')"
proof -
  have sc: "splitCommand actualCmd = (''upload'', Join as '' '')"
    using assms by (rule splitCommand_Fields)
  have "\<forall>w\<in>set (Fields actualCmd). w \<noteq> [] \<and> (\<forall>c\<in>set w. \<not> isSpace c)"
    using Fields_tokens by blast
  then have "\<forall>w\<in>set as. w \<noteq> [] \<and> (\<forall>c\<in>set w. \<not> isSpace c)"
    unfolding assms by simp
  then have ts: "TrimSpace (Join as '' '') = Join as '' ''" by (rule TrimSpace_Join)
  show ?thesis
    unfolding sc by (simp add: ExecuteCommand_def Let_def ts split: sum.split)
qed

text \<open>
  An instance: \<open>upload a\<close> where the file \<open>a\<close> holds \<open>hi\<close>.
\<close>

theorem upload_reads_joined_arguments_witness:
  "(case splitCommand ''upload a'' of (command, args) \<Rightarrow>
      ExecuteCommand (NewGuest ''h1'') exampleEnv command args) =
   ''[Host: h1]\<newline>File: a\<newline>[DATA]\<newline>aGk=\<newline>[/DATA]''"
proof -
  have f: "Fields ''upload a'' = ''upload'' # [''a'']" by code_simp
  have b: "EncodeToString ''hi'' = ''aGk=''" by code_simp
  show ?thesis
    unfolding upload_reads_joined_arguments [OF f]
    by (simp add: exampleEnv_def NewGuest_def b)
qed

text \<open>
  With two arguments the file of the first argument is not the one read: \<open>a\<close> is
  readable, and \<open>upload a b\<close> answers that \<open>a b\<close> does not exist.
\<close>

theorem upload_first_argument_counterexample:
  "Fields ''upload a b'' = [''upload'', ''a'', ''b''] \<and>
   ReadFile exampleEnv ''a'' = Inr ''hi'' \<and>
   (case splitCommand ''upload a b'' of (command, args) \<Rightarrow>
      ExecuteCommand (NewGuest ''h1'') exampleEnv command args) =
   ''[Host: h1]\<newline>Error: open a b: no such file or directory'' \<and>
   (case splitCommand ''upload a b'' of (command, args) \<Rightarrow>
      ExecuteCommand (NewGuest ''h1'') exampleEnv command args) \<noteq>
   ''[Host: h1]\<newline>File: a\<newline>[DATA]\<newline>'' @ EncodeToString ''hi'' @ ''\<newline>[/DATA]''"
  by code_simp

section \<open>The console's clear operation\<close>

text \<open>
  C3. The clear operation on a calendar that holds one ordinary entry, whose summary lacks
  the prefix and whose description has a line that reads as a start marker: the entry is
  removed and counted, although the list operation passes over it.
\<close>

theorem ClearExecutedEvents_removes_plain_entry:
  "\<not> HasPrefix ''Team lunch'' ''Meeting from nobody:'' \<and>
   ClearExecutedEvents (\<lambda>_. True)
     [\<lparr>Path = ''/cal/lunch.ics'',
       Data = Some [\<lparr>SUMMARY = Some ''Team lunch'',
                     DESCRIPTION = Some ''Bring:\<newline>[OUTPUT-projector]'',
                     UID = Some ''u1''\<rparr>]\<rparr>] = Inr ([''/cal/lunch.ics''], 1) \<and>
   listRow
     \<lparr>Path = ''/cal/lunch.ics'',
      Data = Some [\<lparr>SUMMARY = Some ''Team lunch'',
                    DESCRIPTION = Some ''Bring:\<newline>[OUTPUT-projector]'',
                    UID = Some ''u1''\<rparr>]\<rparr> = Inr None"
  by code_simp

end
